theory Spec2Isabelle
  imports Complex_Main "HOL-Library.Sublist"
begin

section \<open>Rowland torus geometry of \<^verbatim>\<open>marxs/design/rowland.py\<close>\<close>

text \<open>
  The module computes with numpy \<^verbatim>\<open>float64\<close> values. They are modelled by exact real
  numbers: rounding is not represented, so a statement "up to floating-point tolerance"
  becomes an equation. Python exceptions are values of the type \<open>error\<close>, returned on the
  left of a sum. numpy does not raise on a division by zero but carries on with
  \<^verbatim>\<open>inf\<close> or \<^verbatim>\<open>nan\<close>; the reals have no such values, so a run that reaches one stops
  with \<open>NonFinite\<close>, which is an outcome of its own and not a Python exception.
\<close>

subsection \<open>Errors\<close>

datatype error =
    ValueError string
  | AmbiguousNormal "(real \<times> real \<times> real) list"
  | GenericException string
  | ElementPlacementError "real \<times> real"
  | IndexError
  | ZeroDivisionError
  | LinAlgError
  | SolverError string
  | NonFinite

text \<open>
  \<open>AmbiguousNormal pts\<close> is the \<^verbatim>\<open>ValueError("Ambiguous normal at {0}".format(xyz[index, :]))\<close>
  of \<^verbatim>\<open>normal\<close>; its message is the fixed prefix followed by the printed points, which are
  kept as data. \<open>SolverError\<close> stands for whatever the iteration of the root finder raises
  by itself (scipy raises a \<^verbatim>\<open>RuntimeError\<close> when it runs out of iterations).
\<close>

definition bind_e :: "error + 'a \<Rightarrow> ('a \<Rightarrow> error + 'b) \<Rightarrow> error + 'b" where
  "bind_e m f = (case m of Inl e \<Rightarrow> Inl e | Inr v \<Rightarrow> f v)"

fun mapM_e :: "('a \<Rightarrow> error + 'b) \<Rightarrow> 'a list \<Rightarrow> error + 'b list" where
  "mapM_e f [] = Inr []"
| "mapM_e f (x # xs) =
     bind_e (f x) (\<lambda>y. bind_e (mapM_e f xs) (\<lambda>ys. Inr (y # ys)))"

text \<open>The message of scipy's \<^verbatim>\<open>brentq\<close> that \<^verbatim>\<open>calculate_elempos\<close> looks for.\<close>

definition sign_msg :: string where
  "sign_msg = ''f(a) and f(b) must have different signs''"

subsection \<open>Vectors, matrices and poses\<close>

type_synonym vec3 = "real \<times> real \<times> real"
type_synonym mat3 = "vec3 \<times> vec3 \<times> vec3"

fun vadd :: "vec3 \<Rightarrow> vec3 \<Rightarrow> vec3" where
  "vadd (a1, a2, a3) (b1, b2, b3) = (a1 + b1, a2 + b2, a3 + b3)"

fun vsub :: "vec3 \<Rightarrow> vec3 \<Rightarrow> vec3" where
  "vsub (a1, a2, a3) (b1, b2, b3) = (a1 - b1, a2 - b2, a3 - b3)"

fun smul :: "real \<Rightarrow> vec3 \<Rightarrow> vec3" where
  "smul c (a1, a2, a3) = (c * a1, c * a2, c * a3)"

fun dot :: "vec3 \<Rightarrow> vec3 \<Rightarrow> real" where
  "dot (a1, a2, a3) (b1, b2, b3) = a1 * b1 + a2 * b2 + a3 * b3"

fun cross :: "vec3 \<Rightarrow> vec3 \<Rightarrow> vec3" where
  "cross (a1, a2, a3) (b1, b2, b3) =
     (a2 * b3 - a3 * b2, a3 * b1 - a1 * b3, a1 * b2 - a2 * b1)"

definition norm3 :: "vec3 \<Rightarrow> real" where
  "norm3 v = sqrt (dot v v)"

text \<open>A matrix is the triple of its rows.\<close>

fun mat_vec :: "mat3 \<Rightarrow> vec3 \<Rightarrow> vec3" where
  "mat_vec (r0, r1, r2) v = (dot r0 v, dot r1 v, dot r2 v)"

fun det3 :: "mat3 \<Rightarrow> real" where
  "det3 (r0, r1, r2) = dot r0 (cross r1 r2)"

fun transpose3 :: "mat3 \<Rightarrow> mat3" where
  "transpose3 ((a11, a12, a13), (a21, a22, a23), (a31, a32, a33)) =
     ((a11, a21, a31), (a12, a22, a32), (a13, a23, a33))"

fun inv3 :: "mat3 \<Rightarrow> mat3" where
  "inv3 (r0, r1, r2) =
     (let d = det3 (r0, r1, r2)
      in transpose3 (smul (1 / d) (cross r1 r2), smul (1 / d) (cross r2 r0),
                     smul (1 / d) (cross r0 r1)))"

definition identity3 :: mat3 where
  "identity3 = ((1, 0, 0), (0, 1, 0), (0, 0, 1))"

text \<open>
  A matrix with orthonormal columns: the linear block of a pose made of a rotation
  and a translation only.
\<close>

definition orthonormal :: "mat3 \<Rightarrow> bool" where
  "orthonormal A =
     (case transpose3 A of (c0, c1, c2) \<Rightarrow>
        dot c0 c0 = 1 \<and> dot c1 c1 = 1 \<and> dot c2 c2 = 1
        \<and> dot c0 c1 = 0 \<and> dot c0 c2 = 0 \<and> dot c1 c2 = 0)"

text \<open>
  Modelled from the spec: \<^verbatim>\<open>_parse_position_keywords\<close>, \<^verbatim>\<open>e2h\<close> and \<^verbatim>\<open>h2e\<close> are not part
  of the sources. The spec's AffineTransform is a 4x4 matrix whose last row is
  \<open>(0, 0, 0, 1)\<close>; it is kept as its upper-left 3x3 block \<open>lin\<close> and its translation
  column \<open>trans\<close>. Multiplying it with \<^verbatim>\<open>e2h(v, 1)\<close> (a point) and dropping the fourth
  coordinate is \<open>transform_point\<close>, with \<^verbatim>\<open>e2h(v, 0)\<close> (a direction) it is
  \<open>transform_vector\<close>. \<^verbatim>\<open>np.linalg.inv\<close> raises \<^verbatim>\<open>LinAlgError\<close> on a singular matrix.
\<close>

record pose =
  lin :: mat3
  trans :: vec3

definition transform_point :: "pose \<Rightarrow> vec3 \<Rightarrow> vec3" where
  "transform_point P v = vadd (mat_vec (lin P) v) (trans P)"

definition transform_vector :: "pose \<Rightarrow> vec3 \<Rightarrow> vec3" where
  "transform_vector P v = mat_vec (lin P) v"

definition linalg_inv :: "pose \<Rightarrow> error + pose" where
  "linalg_inv P =
     (if det3 (lin P) = 0 then Inl LinAlgError
      else Inr \<lparr>lin = inv3 (lin P),
                trans = smul (- 1) (mat_vec (inv3 (lin P)) (trans P))\<rparr>)"

definition identity_pose :: pose where
  "identity_pose = \<lparr>lin = identity3, trans = (0, 0, 0)\<rparr>"

text \<open>
  \<^verbatim>\<open>transforms3d.affines.compose(T, R, Z)\<close> with \<^verbatim>\<open>Z = np.ones(3)\<close>: the block is \<open>R\<close>,
  the translation is \<open>T\<close>.
\<close>

definition compose :: "vec3 \<Rightarrow> mat3 \<Rightarrow> pose" where
  "compose T Rm = \<lparr>lin = Rm, trans = T\<rparr>"

text \<open>
  \<^verbatim>\<open>transforms3d.utils.normalized_vector\<close> divides by \<^verbatim>\<open>math.sqrt((vec**2).sum())\<close>; the
  division of a numpy array by zero gives \<^verbatim>\<open>nan\<close>.
\<close>

definition normalized_vector :: "vec3 \<Rightarrow> error + vec3" where
  "normalized_vector v = (if norm3 v = 0 then Inl NonFinite else Inr (smul (1 / norm3 v) v))"

subsection \<open>numpy helpers\<close>

text \<open>
  \<^verbatim>\<open>np.arange(start, stop)\<close> with step 1 has \<open>\<lceil>stop - start\<rceil>\<close> entries (none when that is
  not positive), the \<open>i\<close>-th being \<open>start + i\<close>.
\<close>

definition arange :: "real \<Rightarrow> real \<Rightarrow> real list" where
  "arange start stop = map (\<lambda>i. start + real i) [0..<nat \<lceil>stop - start\<rceil>]"

text \<open>
  \<^verbatim>\<open>np.arctan2(z, y)\<close>: the angle in \<open>(-pi, pi]\<close> of the point with abscissa \<open>y\<close> and
  ordinate \<open>z\<close>, by which polar coordinates are read off a pair of Cartesian ones.
\<close>

definition np_arctan2 :: "real \<Rightarrow> real \<Rightarrow> real" where
  "np_arctan2 z y =
     (if 0 < y then arctan (z / y)
      else if y < 0 \<and> 0 \<le> z then arctan (z / y) + pi
      else if y < 0 then arctan (z / y) - pi
      else if 0 < z then pi / 2
      else if z < 0 then - pi / 2
      else 0)"

text \<open>Python's \<^verbatim>\<open>%\<close> on floats with the positive modulus \<^verbatim>\<open>2. * np.pi\<close>.\<close>

definition mod_2pi :: "real \<Rightarrow> real" where
  "mod_2pi x = x - 2 * pi * of_int \<lfloor>x / (2 * pi)\<rfloor>"

subsection \<open>The torus\<close>

text \<open>
  The attributes \<^verbatim>\<open>R\<close> and \<^verbatim>\<open>r\<close> are the fields \<open>torus_R\<close> and \<open>torus_r\<close> (single letters
  would capture the variables of every later statement).
\<close>

record torus =
  torus_R :: real
  torus_r :: real
  pos4d :: pose

text \<open>The return expression of \<^verbatim>\<open>quartic\<close>, on coordinates of the local frame.\<close>

fun quartic_local :: "torus \<Rightarrow> vec3 \<Rightarrow> real" where
  "quartic_local t (x, y, z) =
     ((x\<^sup>2 + y\<^sup>2 + z\<^sup>2) + (torus_R t)\<^sup>2 - (torus_r t)\<^sup>2)\<^sup>2
       - 4 * (torus_R t)\<^sup>2 * (x\<^sup>2 + z\<^sup>2)"

text \<open>
  \<^verbatim>\<open>quartic(xyz, transform)\<close>. The shape test \<^verbatim>\<open>xyz.shape[-1] != 3\<close> cannot fail on a
  \<open>vec3\<close>.
\<close>

definition quartic :: "torus \<Rightarrow> vec3 \<Rightarrow> bool \<Rightarrow> error + real" where
  "quartic t xyz transform =
     (if transform
      then bind_e (linalg_inv (pos4d t))
             (\<lambda>invpos4d. Inr (quartic_local t (transform_point invpos4d xyz)))
      else Inr (quartic_local t xyz))"

text \<open>
  numpy's division of floats: a zero divisor gives \<^verbatim>\<open>inf\<close> or \<^verbatim>\<open>nan\<close>, here \<open>None\<close>.
\<close>

definition np_divide :: "real \<Rightarrow> real \<Rightarrow> real option" where
  "np_divide a b = (if b = 0 then None else Some (a / b))"

definition finite_or_stop :: "real option \<Rightarrow> error + real" where
  "finite_or_stop v = (case v of None \<Rightarrow> Inl NonFinite | Some a \<Rightarrow> Inr a)"

text \<open>
  \<^verbatim>\<open>np.allclose(a, 0.)\<close> with the default tolerances \<^verbatim>\<open>rtol=1e-5\<close>, \<^verbatim>\<open>atol=1e-8\<close>: every
  entry satisfies \<open>\<bar>a - 0\<bar> \<le> atol + rtol * \<bar>0\<bar>\<close>; \<^verbatim>\<open>inf\<close> and \<^verbatim>\<open>nan\<close> are never close.
\<close>

definition np_allclose_zero :: "real option list \<Rightarrow> bool" where
  "np_allclose_zero xs =
     list_all (\<lambda>v. case v of None \<Rightarrow> False | Some a \<Rightarrow> \<bar>a\<bar> \<le> 1 / 10 ^ 8) xs"

text \<open>Indexing a numpy array or a list with a non-negative index.\<close>

definition py_index :: "'a list \<Rightarrow> nat \<Rightarrow> error + 'a" where
  "py_index xs i = (if i < length xs then Inr (xs ! i) else Inl IndexError)"

subsection \<open>Root finding\<close>

text \<open>
  \<^verbatim>\<open>scipy.optimize.brentq(f, a, b, full_output=True)\<close> is a library routine. It evaluates
  \<open>f\<close> at both ends of the interval and raises \<^verbatim>\<open>ValueError\<close> with the message
  \<open>sign_msg\<close> (the string that line 472 of the sources looks for) when the two values
  have the same sign. What its iteration does after that test is the parameter
  \<open>iterate\<close>: it returns the root found with the flag \<^verbatim>\<open>converged\<close>, or raises. An
  exception raised by \<open>f\<close> leaves \<^verbatim>\<open>brentq\<close> unchanged.
\<close>

type_synonym rootfinder =
  "(real \<Rightarrow> error + real) \<Rightarrow> real \<Rightarrow> real \<Rightarrow> error + real \<times> bool"

definition brentq :: "rootfinder \<Rightarrow> (real \<Rightarrow> error + real) \<Rightarrow> real \<Rightarrow> real \<Rightarrow> error + real \<times> bool" where
  "brentq iterate f a b =
     bind_e (f a) (\<lambda>fa. bind_e (f b) (\<lambda>fb.
       if fa * fb > 0 then Inl (ValueError sign_msg) else iterate f a b))"

fun set_coord :: "vec3 \<Rightarrow> nat \<Rightarrow> real \<Rightarrow> vec3" where
  "set_coord (x, y, z) ind v =
     (if ind = 0 then (v, y, z) else if ind = 1 then (x, v, z) else (x, y, v))"

definition coord_or_zero :: "real option \<Rightarrow> real" where
  "coord_or_zero c = (case c of None \<Rightarrow> 0 | Some v \<Rightarrow> v)"

text \<open>
  \<^verbatim>\<open>solve_quartic(x, y, z, interval, transform)\<close>: \<open>free_index\<close> is \<^verbatim>\<open>ind\<close>, the position
  of the last \<^verbatim>\<open>None\<close> among the coordinates; that coordinate starts as \<open>0\<close>.
  \<open>quartic_slice\<close> is the local function \<^verbatim>\<open>f\<close> of lines 149 to 151, the quartic along
  the free coordinate.
\<close>

definition free_index :: "real option \<Rightarrow> real option \<Rightarrow> real option \<Rightarrow> nat" where
  "free_index x y z = (if z = None then 2 else if y = None then 1 else 0)"

definition quartic_slice ::
  "torus \<Rightarrow> real option \<Rightarrow> real option \<Rightarrow> real option \<Rightarrow> bool \<Rightarrow> real \<Rightarrow> error + real" where
  "quartic_slice t x y z transform val_in =
     quartic t (set_coord (coord_or_zero x, coord_or_zero y, coord_or_zero z)
                  (free_index x y z) val_in) transform"

definition solve_quartic ::
  "rootfinder \<Rightarrow> torus \<Rightarrow> real option \<Rightarrow> real option \<Rightarrow> real option \<Rightarrow> real \<times> real \<Rightarrow> bool
     \<Rightarrow> error + real" where
  "solve_quartic iterate t x y z interval transform =
     (let n_Nones = length (filter (\<lambda>c. c = None) [x, y, z])
      in if n_Nones \<noteq> 1
         then Inl (ValueError ''Exactly one of the input numbers for x,y,z must be None.'')
         else bind_e (brentq iterate (quartic_slice t x y z transform)
                        (fst interval) (snd interval))
                (\<lambda>(val_out, converged).
                   if \<not> converged
                   then Inl (GenericException ''Intersection with torus not found.'')
                   else Inr val_out))"

subsection \<open>The normal field\<close>

text \<open>
  The argument \<^verbatim>\<open>origin\<close> of \<^verbatim>\<open>normal\<close> is the string \<^verbatim>\<open>"raise"\<close> or an array; \<open>None\<close>
  stands for a call that leaves the argument out, which then has the default of the
  signature, \<^verbatim>\<open>np.array([-1., 0, 0])\<close>.
\<close>

datatype origin = OriginRaise | OriginVector "real list"

definition origin_default :: origin where
  "origin_default = OriginVector [- 1, 0, 0]"

text \<open>The partial derivatives \<^verbatim>\<open>dFdx, dFdy, dFdz\<close> of lines 216 to 219.\<close>

fun gradient_local :: "torus \<Rightarrow> vec3 \<Rightarrow> vec3" where
  "gradient_local t (x, y, z) =
     (let factor = 4 * ((x\<^sup>2 + y\<^sup>2 + z\<^sup>2) + (torus_R t)\<^sup>2 - (torus_r t)\<^sup>2)
      in (factor * x - 8 * (torus_R t)\<^sup>2 * x,
          factor * y,
          factor * z - 8 * (torus_R t)\<^sup>2 * z))"

fun abs_sum :: "vec3 \<Rightarrow> real" where
  "abs_sum (a, b, c) = \<bar>a\<bar> + \<bar>b\<bar> + \<bar>c\<bar>"

text \<open>A row of \<^verbatim>\<open>gradient / np.linalg.norm(gradient, axis=1)[:, None]\<close>.\<close>

definition row_over_norm :: "vec3 \<Rightarrow> error + vec3" where
  "row_over_norm g = (if norm3 g = 0 then Inl NonFinite else Inr (smul (1 / norm3 g) g))"

text \<open>
  The argument \<^verbatim>\<open>xyz\<close> is an array of shape \<open>(3)\<close>, here \<open>Point\<close>, or of shape \<open>(N, 3)\<close>, here
  \<open>Points\<close>. Both are worked on row by row; \<^verbatim>\<open>np.vstack([dFdx, dFdy, dFdz]).T\<close> has one
  row for a single point, and so has the result. The two shapes differ where the
  message of the ambiguity error is built: \<^verbatim>\<open>xyz[index, :]\<close> (line 225) puts two indices
  on \<^verbatim>\<open>xyz\<close>, which raises \<^verbatim>\<open>IndexError\<close> on the one-dimensional array of a single point.
\<close>

datatype points = Point vec3 | Points "vec3 list"

fun point_rows :: "points \<Rightarrow> vec3 list" where
  "point_rows (Point p) = [p]"
| "point_rows (Points ps) = ps"

definition normal :: "torus \<Rightarrow> points \<Rightarrow> origin option \<Rightarrow> error + vec3 list" where
  "normal t xyz origin_arg =
     (let origin = (case origin_arg of None \<Rightarrow> origin_default | Some v \<Rightarrow> v)
      in bind_e (linalg_inv (pos4d t)) (\<lambda>invpos4d.
         let xyz' = map (transform_point invpos4d) (point_rows xyz)
         in bind_e (mapM_e (\<lambda>p. quartic t p False) xyz') (\<lambda>qs.
            if \<not> np_allclose_zero (map (\<lambda>q. np_divide q (torus_R t ^ 4)) qs)
            then Inl (ValueError
                   ''Gradient vector field is only defined for points on torus surface.'')
            else
              (let gradient = map (gradient_local t) xyz';
                   index = filter (\<lambda>i. abs_sum (gradient ! i) = 0) [0..<length gradient]
               in bind_e
                    (if index \<noteq> [] then
                       (case origin of
                          OriginRaise \<Rightarrow>
                            (case xyz of
                               Point p \<Rightarrow> Inl IndexError
                             | Points ps \<Rightarrow> Inl (AmbiguousNormal (map (\<lambda>i. xyz' ! i) index)))
                        | OriginVector v \<Rightarrow>
                            if length v = 3
                            then Inr (fold (\<lambda>i g. g[i := (v ! 0, v ! 1, v ! 2)]) index gradient)
                            else Inl (ValueError '''origin' must be 'raise' or Eukledian vector.''))
                     else Inr gradient)
                    (\<lambda>gradient'. bind_e (mapM_e row_over_norm gradient')
                       (\<lambda>unit. Inr (map (transform_vector (pos4d t)) unit)))))))"

text \<open>
  \<^verbatim>\<open>normal\<close> as the placers call it, with the position of one facet (an array of shape
  \<open>(3)\<close>); the single row of the result becomes a row of the rotation matrix.
\<close>

definition normal1 :: "torus \<Rightarrow> vec3 \<Rightarrow> origin option \<Rightarrow> error + vec3" where
  "normal1 t p origin_arg = bind_e (normal t (Point p) origin_arg) (\<lambda>rows. py_index rows 0)"

text \<open>
  The analytic gradient in the words of the specification: \<open>g\<close> is the gradient of the
  quartic at a point of the local frame when its components are the three partial
  derivatives of \<open>quartic_local\<close> there. It is stated with derivatives and not with the
  formulas of \<^verbatim>\<open>normal\<close>, against which it is compared below.
\<close>

definition is_quartic_gradient :: "torus \<Rightarrow> vec3 \<Rightarrow> vec3 \<Rightarrow> bool" where
  "is_quartic_gradient t p g =
     (case p of (x, y, z) \<Rightarrow> case g of (gx, gy, gz) \<Rightarrow>
        ((\<lambda>u. quartic_local t (u, y, z)) has_real_derivative gx) (at x)
        \<and> ((\<lambda>u. quartic_local t (x, u, z)) has_real_derivative gy) (at y)
        \<and> ((\<lambda>u. quartic_local t (x, y, u)) has_real_derivative gz) (at z))"

definition xyz_from_radiusangle ::
  "rootfinder \<Rightarrow> torus \<Rightarrow> real \<Rightarrow> real \<Rightarrow> real \<times> real \<Rightarrow> error + vec3" where
  "xyz_from_radiusangle iterate t radius' angle interval =
     (let y = radius' * cos angle;
          z = radius' * sin angle
      in bind_e (solve_quartic iterate t None (Some y) (Some z) interval False)
           (\<lambda>x. Inr (transform_point (pos4d t) (x, y, z))))"

text \<open>
  The transformation into the local frame of the torus that \<^verbatim>\<open>quartic\<close> and \<^verbatim>\<open>normal\<close>
  apply to their argument.
\<close>

definition to_local :: "torus \<Rightarrow> vec3 \<Rightarrow> error + vec3" where
  "to_local t p = bind_e (linalg_inv (pos4d t)) (\<lambda>invpos4d. Inr (transform_point invpos4d p))"

subsection \<open>Designing a tilted torus\<close>

text \<open>
  \<^verbatim>\<open>np.sqrt\<close> of a negative number and \<^verbatim>\<open>np.arccos\<close> outside \<open>[-1, 1]\<close> give \<^verbatim>\<open>nan\<close>.
\<close>

definition np_sqrt :: "real \<Rightarrow> real option" where
  "np_sqrt a = (if a < 0 then None else Some (sqrt a))"

definition np_arccos :: "real \<Rightarrow> real option" where
  "np_arccos a = (if - 1 \<le> a \<and> a \<le> 1 then Some (arccos a) else None)"

text \<open>\<^verbatim>\<open>(np.sign(alpha) or 1)\<close>: the sign, with the falsy \<open>0\<close> replaced by \<open>1\<close>.\<close>

definition sign_or_1 :: "real \<Rightarrow> real" where
  "sign_or_1 alpha = (if sgn alpha = 0 then 1 else sgn alpha)"

text \<open>
  \<^verbatim>\<open>transforms3d.axangles.axangle2mat(axis, angle)\<close>, a library routine: the axis is
  normalised with \<^verbatim>\<open>math.sqrt\<close> and Python's float division, then the rotation matrix
  is filled in.
\<close>

definition axangle2mat :: "vec3 \<Rightarrow> real \<Rightarrow> error + mat3" where
  "axangle2mat axis angle =
     (case axis of (x0, y0, z0) \<Rightarrow>
        let n = sqrt (x0 * x0 + y0 * y0 + z0 * z0)
        in if n = 0 then Inl ZeroDivisionError
           else
             (let x = x0 / n; y = y0 / n; z = z0 / n;
                  c = cos angle; s = sin angle; C = 1 - c;
                  xs = x * s; ys = y * s; zs = z * s;
                  xC = x * C; yC = y * C; zC = z * C;
                  xyC = x * yC; yzC = y * zC; zxC = z * xC
              in Inr ((x * xC + c, xyC - zs, zxC + ys),
                      (xyC + zs, y * yC + c, yzC - xs),
                      (zxC - ys, yzC + xs, z * zC + c))))"

text \<open>The local variables \<^verbatim>\<open>r\<close>, \<^verbatim>\<open>CatH\<close>, \<^verbatim>\<open>HF\<close> and \<^verbatim>\<open>gamma\<close> of lines 333 to 340.\<close>

definition tilted_r :: "real \<Rightarrow> real \<Rightarrow> error + real" where
  "tilted_r f alpha = finite_or_stop (np_divide f (2 * cos alpha))"

definition tilted_CatH :: "real \<Rightarrow> real \<Rightarrow> real \<Rightarrow> error + real" where
  "tilted_CatH f alpha beta =
     bind_e (tilted_r f alpha) (\<lambda>r.
     bind_e (finite_or_stop (np_sqrt (2 * (1 + cos (2 * (beta - alpha)))))) (\<lambda>s.
       Inr (r * s)))"

definition tilted_HF :: "real \<Rightarrow> real \<Rightarrow> real \<Rightarrow> error + real" where
  "tilted_HF f alpha beta =
     bind_e (tilted_CatH f alpha beta) (\<lambda>CatH.
       finite_or_stop (np_sqrt (f\<^sup>2 + CatH\<^sup>2 - 2 * f * CatH * cos beta)))"

definition tilted_gamma :: "real \<Rightarrow> real \<Rightarrow> real \<Rightarrow> error + real" where
  "tilted_gamma f alpha beta =
     bind_e (tilted_r f alpha) (\<lambda>r.
     bind_e (tilted_HF f alpha beta) (\<lambda>HF.
     bind_e (finite_or_stop (np_divide HF (2 * r))) (\<lambda>q.
     bind_e (finite_or_stop (np_arccos q)) (\<lambda>a.
       Inr (a * sign_or_1 alpha)))))"

definition design_tilted_torus :: "real \<Rightarrow> real \<Rightarrow> real \<Rightarrow> error + real \<times> real \<times> pose" where
  "design_tilted_torus f alpha beta =
     bind_e (tilted_r f alpha) (\<lambda>r.
     bind_e (tilted_gamma f alpha beta) (\<lambda>gamma.
     bind_e (finite_or_stop (np_divide f (sin (pi - alpha - (alpha + gamma))))) (\<lambda>q.
       let R = q * sin (alpha + gamma) - r;
           FCt = q * sin alpha;
           x_Ct = FCt * cos (alpha + gamma);
           z_Ct = 0;
           y_Ct = FCt * sin (alpha + gamma)
       in bind_e (axangle2mat (0, 0, - 1) (pi / 2 - alpha - gamma)) (\<lambda>orientation.
            Inr (R, r, compose (x_Ct, y_Ct, z_Ct) orientation)))))"

subsection \<open>Element placers\<close>

text \<open>
  \<^verbatim>\<open>LinearCCDArray\<close> and its subclass \<^verbatim>\<open>GratingArrayStructure\<close> share their attributes;
  \<^verbatim>\<open>phi\<close> is one angle in the first and a pair of bounding angles in the second.
\<close>

record 'phi placer =
  rowland :: torus
  d_element :: real
  x_range :: "real \<times> real"
  radius :: "real \<times> real"
  phi :: 'phi

datatype placer_kind = LinearCCDArray | GratingArrayStructure

text \<open>The class attribute \<^verbatim>\<open>tangent_to_torus\<close> (lines 392 and 522).\<close>

fun tangent_to_torus :: "placer_kind \<Rightarrow> bool" where
  "tangent_to_torus LinearCCDArray = True"
| "tangent_to_torus GratingArrayStructure = False"

text \<open>
  \<^verbatim>\<open>LinearCCDArray.__init__\<close>, up to the call of the base class constructor, which is
  not part of the sources. The first argument is the value of \<^verbatim>\<open>np.max(np.abs(phi))\<close>.
\<close>

definition placer_init ::
  "real \<Rightarrow> torus \<Rightarrow> real \<Rightarrow> real \<times> real \<Rightarrow> real \<times> real \<Rightarrow> 'phi \<Rightarrow> error + 'phi placer" where
  "placer_init max_abs_phi rowland' d_element' x_range' radius' phi' =
     (if \<not> (snd radius' > fst radius')
      then Inl (ValueError ''Outer radius must be larger than inner radius.'')
      else if max_abs_phi > 10
      then Inl (ValueError ''Input angles >> 2 pi. Did you use degrees (radian expected)?'')
      else Inr \<lparr>rowland = rowland', d_element = d_element', x_range = x_range',
                radius = radius', phi = phi'\<rparr>)"

definition LinearCCDArray_init ::
  "torus \<Rightarrow> real \<Rightarrow> real \<times> real \<Rightarrow> real \<times> real \<Rightarrow> real \<Rightarrow> error + real placer" where
  "LinearCCDArray_init rowland' d_element' x_range' radius' phi' =
     placer_init \<bar>phi'\<bar> rowland' d_element' x_range' radius' phi'"

definition GratingArrayStructure_init ::
  "torus \<Rightarrow> real \<Rightarrow> real \<times> real \<Rightarrow> real \<times> real \<Rightarrow> (real \<times> real) option
     \<Rightarrow> error + (real \<times> real) placer" where
  "GratingArrayStructure_init rowland' d_element' x_range' radius' phi_arg =
     (let phi' = (case phi_arg of None \<Rightarrow> (0, 2 * pi) | Some v \<Rightarrow> v)
      in if min (fst radius') (snd radius') < 0
         then Inl (ValueError ''Radius must be positive.'')
         else placer_init (max \<bar>fst phi'\<bar> \<bar>snd phi'\<bar>) rowland' d_element' x_range' radius' phi')"

text \<open>
  \<^verbatim>\<open>max_elements_on_radius\<close>: \<^verbatim>\<open>radius\<close> and \<^verbatim>\<open>d_element\<close> are Python floats, whose
  division by zero raises.
\<close>

definition max_elements_on_radius :: "'phi placer \<Rightarrow> error + int" where
  "max_elements_on_radius p =
     (if d_element p = 0 then Inl ZeroDivisionError
      else Inr \<lceil>(snd (radius p) - fst (radius p)) / d_element p\<rceil>)"

definition distribute_elements_on_radius :: "'phi placer \<Rightarrow> error + real list" where
  "distribute_elements_on_radius p =
     bind_e (max_elements_on_radius p)
       (\<lambda>n. Inr (map (\<lambda>a. (fst (radius p) + snd (radius p)) / 2 + a * d_element p)
                    (arange (- real_of_int n / 2 + 0.5) (real_of_int n / 2 + 0.5))))"

subsection \<open>Arc packing\<close>

text \<open>
  Modelled from the spec: \<^verbatim>\<open>anglediff\<close> of \<^verbatim>\<open>marxs/math/utils.py\<close> is not part of the
  sources. The spec reads \<open>phi = [phi1, phi2]\<close> as the arc that runs counterclockwise
  from \<open>phi1\<close> to \<open>phi2\<close>, possibly wrapping through zero, and the default \<open>[0, 2 pi]\<close> as
  the full circle: the span is the difference of the bounds modulo \<open>2 pi\<close>, and \<open>2 pi\<close>
  when that is zero for two different bounds.
\<close>

definition anglediff :: "real \<times> real \<Rightarrow> real" where
  "anglediff ph =
     (let d = mod_2pi (snd ph - fst ph)
      in if d = 0 \<and> fst ph \<noteq> snd ph then 2 * pi else d)"

text \<open>
  An angle lies on the arc of \<open>phi\<close> when, counted counterclockwise from \<open>phi[0]\<close>, it
  comes no later than the end of the span.
\<close>

definition in_arc :: "real \<times> real \<Rightarrow> real \<Rightarrow> bool" where
  "in_arc ph a = (mod_2pi (a - fst ph) \<le> anglediff ph)"

text \<open>
  The argument \<^verbatim>\<open>radius\<close> of the arc functions is a Python float for a caller that
  follows the docstring, and a numpy \<^verbatim>\<open>float64\<close> scalar where \<^verbatim>\<open>calculate_elempos\<close> passes
  an entry of the array \<^verbatim>\<open>radii\<close>. The two kinds differ in a division by zero: Python
  raises \<^verbatim>\<open>ZeroDivisionError\<close>, numpy goes on with \<^verbatim>\<open>inf\<close> or \<^verbatim>\<open>nan\<close>. \<^verbatim>\<open>d_element\<close>, \<^verbatim>\<open>phi\<close>
  and the value of \<^verbatim>\<open>anglediff\<close> are Python floats, so every quotient below has the kind
  of \<^verbatim>\<open>radius\<close>.
\<close>

datatype scalar_kind = PyFloat | NpFloat64

definition kind_divide :: "scalar_kind \<Rightarrow> real \<Rightarrow> real \<Rightarrow> error + real option" where
  "kind_divide k a b =
     (if b = 0 then (case k of PyFloat \<Rightarrow> Inl ZeroDivisionError | NpFloat64 \<Rightarrow> Inr None)
      else Inr (Some (a / b)))"

text \<open>
  \<^verbatim>\<open>max_elements_on_arc\<close>: the floor division \<^verbatim>\<open>//\<close> of floats. A numpy quotient by a
  zero element size is not a finite number.
\<close>

definition max_elements_on_arc ::
  "scalar_kind \<Rightarrow> (real \<times> real) placer \<Rightarrow> real \<Rightarrow> error + real" where
  "max_elements_on_arc k p radius' =
     (if d_element p = 0
      then (case k of PyFloat \<Rightarrow> Inl ZeroDivisionError | NpFloat64 \<Rightarrow> Inl NonFinite)
      else Inr (of_int \<lfloor>radius' * anglediff (phi p) / d_element p\<rfloor>))"

text \<open>
  \<^verbatim>\<open>distribute_elements_on_arc\<close>. For a numpy \<^verbatim>\<open>radius\<close> the scalars \<^verbatim>\<open>element_angle\<close> and
  \<^verbatim>\<open>d_between\<close> may be non-finite (zero radius, \<open>n = -1\<close>); that shows in the result only
  where they meet an entry of \<^verbatim>\<open>np.arange(n)\<close>.
\<close>

definition distribute_elements_on_arc ::
  "scalar_kind \<Rightarrow> (real \<times> real) placer \<Rightarrow> real \<Rightarrow> error + real list" where
  "distribute_elements_on_arc k p radius' =
     bind_e (max_elements_on_arc k p (radius' - d_element p / 2)) (\<lambda>n.
     bind_e (kind_divide k (d_element p) (2 * pi * radius')) (\<lambda>element_angle.
     bind_e (case element_angle of None \<Rightarrow> Inr None
             | Some ea \<Rightarrow> kind_divide k (anglediff (phi p) - n * ea) (n + 1)) (\<lambda>d_between.
       mapM_e
         (\<lambda>i. case (d_between, element_angle) of
                 (Some db, Some ea) \<Rightarrow>
                   Inr (mod_2pi (fst (phi p) + (db + 0.5 * ea + i * (db + ea))))
               | _ \<Rightarrow> Inl NonFinite)
         (arange 0 n))))"

subsection \<open>Element poses\<close>

text \<open>The rows of \<^verbatim>\<open>rot_mat\<close> in \<^verbatim>\<open>LinearCCDArray.calculate_elempos\<close> (lines 465 to 469).\<close>

definition linear_rot_mat :: "vec3 \<Rightarrow> vec3 \<Rightarrow> error + mat3" where
  "linear_rot_mat facet_normal line =
     (let row0 = facet_normal;
          row1 = vsub line (smul (dot row0 line) row0)
      in bind_e (normalized_vector (cross row0 row1)) (\<lambda>row2. Inr (row0, row1, row2)))"

text \<open>The body of the loop over \<^verbatim>\<open>radii\<close> (lines 459 to 470).\<close>

definition linear_facet :: "rootfinder \<Rightarrow> real placer \<Rightarrow> vec3 \<Rightarrow> real \<Rightarrow> error + pose" where
  "linear_facet iterate p line r =
     bind_e (xyz_from_radiusangle iterate (rowland p) r (phi p) (x_range p)) (\<lambda>facet_pos.
     bind_e (if tangent_to_torus LinearCCDArray
             then normal1 (rowland p) facet_pos None
             else Inr facet_pos) (\<lambda>facet_normal.
     bind_e (linear_rot_mat facet_normal line) (\<lambda>rot_mat.
       Inr (compose facet_pos rot_mat))))"

text \<open>
  The handler \<^verbatim>\<open>except ValueError as e\<close> of lines 471 to 476. It sees the
  \<^verbatim>\<open>ValueError\<close>s only; the message of an ambiguous normal starts with
  \<^verbatim>\<open>Ambiguous normal at\<close> and goes on with printed numbers, so it does not contain
  \<open>sign_msg\<close>.
\<close>

definition except_ValueError :: "real \<times> real \<Rightarrow> error + 'a \<Rightarrow> error + 'a" where
  "except_ValueError xr res =
     (case res of
        Inl (ValueError m) \<Rightarrow>
          if sublist sign_msg m then Inl (ElementPlacementError xr) else Inl (ValueError m)
      | _ \<Rightarrow> res)"

definition LinearCCDArray_calculate_elempos :: "rootfinder \<Rightarrow> real placer \<Rightarrow> error + pose list" where
  "LinearCCDArray_calculate_elempos iterate p =
     bind_e (distribute_elements_on_radius p) (\<lambda>radii.
       except_ValueError (x_range p)
         (bind_e (py_index radii 1) (\<lambda>r1.
          bind_e (xyz_from_radiusangle iterate (rowland p) r1 (phi p) (x_range p)) (\<lambda>p1.
          bind_e (py_index radii 0) (\<lambda>r0.
          bind_e (xyz_from_radiusangle iterate (rowland p) r0 (phi p) (x_range p)) (\<lambda>p0.
          bind_e (normalized_vector (vsub p1 p0)) (\<lambda>line.
            mapM_e (linear_facet iterate p line) radii)))))))"

text \<open>
  \<^verbatim>\<open>ex2vec_fix\<close> of \<^verbatim>\<open>marxs/math/rotations.py\<close> is not part of the sources; it is a
  parameter of the grating placer. The body of the inner loop (lines 596 to 605):
\<close>

type_synonym ex2vec = "vec3 \<Rightarrow> vec3 \<Rightarrow> error + mat3"

definition grating_element ::
  "rootfinder \<Rightarrow> ex2vec \<Rightarrow> (real \<times> real) placer \<Rightarrow> real \<Rightarrow> real \<Rightarrow> error + pose" where
  "grating_element iterate ex2vec_fix p r a =
     bind_e (xyz_from_radiusangle iterate (rowland p) r a (x_range p)) (\<lambda>element_pos.
     bind_e (if tangent_to_torus GratingArrayStructure
             then normal1 (rowland p) element_pos None
             else Inr element_pos) (\<lambda>element_normal.
     bind_e (ex2vec_fix element_normal (0, 1, 0)) (\<lambda>rot_mat.
       Inr (compose element_pos rot_mat))))"

definition GratingArrayStructure_calculate_elempos ::
  "rootfinder \<Rightarrow> ex2vec \<Rightarrow> (real \<times> real) placer \<Rightarrow> error + pose list" where
  "GratingArrayStructure_calculate_elempos iterate ex2vec_fix p =
     bind_e (distribute_elements_on_radius p) (\<lambda>radii.
     bind_e (mapM_e (\<lambda>r. bind_e (distribute_elements_on_arc NpFloat64 p r) (\<lambda>angles.
                            mapM_e (grating_element iterate ex2vec_fix p r) angles)) radii)
       (\<lambda>rows. Inr (concat rows)))"

section \<open>Properties\<close>

lemma bind_e_Inl [simp]: "bind_e (Inl e) f = Inl e"
  by (simp add: bind_e_def)

lemma bind_e_Inr [simp]: "bind_e (Inr v) f = f v"
  by (simp add: bind_e_def)

lemma placer_init_fields:
  assumes "placer_init m tor d xr rad ph = Inr p"
  shows "rowland p = tor" "d_element p = d" "x_range p = xr" "radius p = rad" "phi p = ph"
    "fst rad < snd rad" "m \<le> 10"
  using assms by (auto simp: placer_init_def split: if_splits)

lemma length_arange: "length (arange start stop) = nat \<lceil>stop - start\<rceil>"
  by (simp add: arange_def)

lemma nth_arange: "i < nat \<lceil>stop - start\<rceil> \<Longrightarrow> arange start stop ! i = start + real i"
  by (simp add: arange_def)

lemma arange_centred_length:
  "length (arange (- real_of_int n / 2 + 0.5) (real_of_int n / 2 + 0.5)) = nat n"
proof -
  have "real_of_int n / 2 + 0.5 - (- real_of_int n / 2 + 0.5) = real_of_int n"
    by (simp add: field_simps)
  then show ?thesis
    by (simp add: length_arange)
qed

lemma max_elements_on_radius_pos:
  assumes "0 < d_element p" and "fst (radius p) < snd (radius p)"
  shows "max_elements_on_radius p = Inr \<lceil>(snd (radius p) - fst (radius p)) / d_element p\<rceil>"
    and "0 < \<lceil>(snd (radius p) - fst (radius p)) / d_element p\<rceil>"
  using assms by (simp_all add: max_elements_on_radius_def)

lemma nth_arange_centred:
  assumes "i < nat n"
  shows "arange (- real_of_int n / 2 + 0.5) (real_of_int n / 2 + 0.5) ! i
           = - real_of_int n / 2 + 0.5 + real i"
proof -
  have "real_of_int n / 2 + 0.5 - (- real_of_int n / 2 + 0.5) = real_of_int n"
    by (simp add: field_simps)
  then have "nat \<lceil>real_of_int n / 2 + 0.5 - (- real_of_int n / 2 + 0.5)\<rceil> = nat n"
    by simp
  with assms show ?thesis
    by (simp only: nth_arange)
qed

subsection \<open>Radial packing\<close>

text \<open>
  Claim C9. For a placer with a positive element size and \<open>radius[0] < radius[1]\<close> (which
  the constructor enforces), \<^verbatim>\<open>distribute_elements_on_radius\<close> returns exactly
  \<open>n = \<lceil>(radius[1] - radius[0]) / d_element\<rceil>\<close> radii; the \<open>i\<close>-th is the midpoint of the
  range plus \<open>(i - (n - 1) / 2) * d_element\<close>, so that neighbours are \<open>d_element\<close> apart and
  the list is symmetric about the midpoint. For \<open>radius = [-5, 5]\<close> and \<open>d_element = 2\<close>
  the result is \<open>[-4, -2, 0, 2, 4]\<close>.
\<close>

theorem distribute_elements_on_radius_count_and_spacing:
  "(0 < d_element p \<and> fst (radius p) < snd (radius p) \<longrightarrow>
     (\<exists>xs. distribute_elements_on_radius p = Inr xs
        \<and> int (length xs) = \<lceil>(snd (radius p) - fst (radius p)) / d_element p\<rceil>
        \<and> (\<forall>i < length xs. xs ! i =
              (fst (radius p) + snd (radius p)) / 2
                + (real i - (real (length xs) - 1) / 2) * d_element p)
        \<and> (\<forall>i. Suc i < length xs \<longrightarrow> xs ! Suc i - xs ! i = d_element p)
        \<and> (\<forall>i < length xs. xs ! i + xs ! (length xs - 1 - i) = fst (radius p) + snd (radius p))))
   \<and> distribute_elements_on_radius (p\<lparr>radius := (- 5, 5), d_element := 2\<rparr>)
        = Inr [- 4, - 2, 0, 2, 4]"
proof (intro conjI impI)
  assume h: "0 < d_element p \<and> fst (radius p) < snd (radius p)"
  define n where "n = \<lceil>(snd (radius p) - fst (radius p)) / d_element p\<rceil>"
  define m where "m = (fst (radius p) + snd (radius p)) / 2"
  define xs where "xs = map (\<lambda>a. m + a * d_element p)
                    (arange (- real_of_int n / 2 + 0.5) (real_of_int n / 2 + 0.5))"
  have npos: "0 < n"
    using h max_elements_on_radius_pos(2)[of p] by (simp add: n_def)
  have res: "distribute_elements_on_radius p = Inr xs"
    using h by (simp add: distribute_elements_on_radius_def max_elements_on_radius_def
        bind_e_def xs_def n_def m_def)
  have len: "length xs = nat n"
    by (simp only: xs_def length_map arange_centred_length)
  have nth: "xs ! i = m + (real i - (real (length xs) - 1) / 2) * d_element p"
    if "i < length xs" for i
  proof -
    define ar where "ar = arange (- real_of_int n / 2 + 0.5) (real_of_int n / 2 + 0.5)"
    have i: "i < nat n" using that len by simp
    then have ari: "ar ! i = - real_of_int n / 2 + 0.5 + real i"
      unfolding ar_def by (rule nth_arange_centred)
    have "length ar = nat n"
      unfolding ar_def by (rule arange_centred_length)
    with i have "xs ! i = m + ar ! i * d_element p"
      unfolding xs_def ar_def[symmetric] by simp
    moreover have "real (length xs) = real_of_int n"
      using len npos by simp
    ultimately show ?thesis
      using ari by (simp add: field_simps)
  qed
  have step: "xs ! Suc i - xs ! i = d_element p" if "Suc i < length xs" for i
    using nth[of i] nth[of "Suc i"] that by (simp add: field_simps)
  have sym: "xs ! i + xs ! (length xs - 1 - i) = fst (radius p) + snd (radius p)"
    if "i < length xs" for i
  proof -
    have "length xs - 1 - i < length xs" using that by simp
    moreover have "real (length xs - 1 - i) = real (length xs) - 1 - real i"
      using that by (simp add: of_nat_diff)
    ultimately show ?thesis
      using nth[of i] nth[of "length xs - 1 - i"] that by (simp add: m_def field_simps)
  qed
  show "\<exists>xs. distribute_elements_on_radius p = Inr xs
        \<and> int (length xs) = \<lceil>(snd (radius p) - fst (radius p)) / d_element p\<rceil>
        \<and> (\<forall>i < length xs. xs ! i =
              (fst (radius p) + snd (radius p)) / 2
                + (real i - (real (length xs) - 1) / 2) * d_element p)
        \<and> (\<forall>i. Suc i < length xs \<longrightarrow> xs ! Suc i - xs ! i = d_element p)
        \<and> (\<forall>i < length xs. xs ! i + xs ! (length xs - 1 - i) = fst (radius p) + snd (radius p))"
  proof (intro exI[of _ xs] conjI allI impI)
    show "distribute_elements_on_radius p = Inr xs" by (rule res)
    show "int (length xs) = \<lceil>(snd (radius p) - fst (radius p)) / d_element p\<rceil>"
      using len npos by (simp add: n_def)
  qed (use nth step sym in \<open>simp_all add: m_def\<close>)
next
  show "distribute_elements_on_radius (p\<lparr>radius := (- 5, 5), d_element := 2\<rparr>)
        = Inr [- 4, - 2, 0, 2, 4]"
    by (simp add: distribute_elements_on_radius_def max_elements_on_radius_def bind_e_def
        arange_def upt_conv_Cons)
qed

text \<open>The theorem at the placer of the example.\<close>

theorem distribute_elements_on_radius_witness:
  "\<exists>xs. distribute_elements_on_radius
           \<lparr>rowland = \<lparr>torus_R = 1, torus_r = 1, pos4d = identity_pose\<rparr>, d_element = 2,
            x_range = (0, 3), radius = (- 5, 5), phi = (0::real)\<rparr> = Inr xs
      \<and> length xs = 5 \<and> xs ! 4 - xs ! 3 = 2 \<and> xs ! 0 + xs ! 4 = 0 \<and> xs = [- 4, - 2, 0, 2, 4]"
  using distribute_elements_on_radius_count_and_spacing
    [of "\<lparr>rowland = \<lparr>torus_R = 1, torus_r = 1, pos4d = identity_pose\<rparr>, d_element = 2,
            x_range = (0, 3), radius = (- 5, 5), phi = (0::real)\<rparr>"]
  by simp

subsection \<open>A single element on the radius\<close>

lemma single_radius:
  assumes "0 < snd (radius p) - fst (radius p)" "snd (radius p) - fst (radius p) \<le> d_element p"
  shows "distribute_elements_on_radius p = Inr [(fst (radius p) + snd (radius p)) / 2]"
proof -
  have d: "0 < d_element p" using assms by linarith
  have "\<lceil>(snd (radius p) - fst (radius p)) / d_element p\<rceil> = 1"
    using assms d by (simp add: ceiling_eq_iff)
  then show ?thesis
    using d by (simp add: distribute_elements_on_radius_def max_elements_on_radius_def arange_def)
qed

text \<open>
  Claim C10. A \<^verbatim>\<open>LinearCCDArray\<close> that its constructor accepts and whose radius span is at
  most \<open>d_element\<close> gets exactly one element radius, and \<^verbatim>\<open>calculate_elempos\<close> ends with
  an \<^verbatim>\<open>IndexError\<close> from \<^verbatim>\<open>radii[1]\<close>, whatever the root finder does; the handler for
  \<^verbatim>\<open>ValueError\<close> does not catch it. It returns neither a list with one pose nor an
  \<^verbatim>\<open>ElementPlacementError\<close>.
\<close>

theorem calculate_elempos_one_element_IndexError:
  assumes "LinearCCDArray_init tor d xr rad ph = Inr p"
    and "snd rad - fst rad \<le> d"
  shows "distribute_elements_on_radius p = Inr [(fst rad + snd rad) / 2]
           \<and> LinearCCDArray_calculate_elempos iterate p = Inl IndexError"
proof -
  have f: "d_element p = d" "radius p = rad" "fst rad < snd rad"
    using assms(1) placer_init_fields[of "\<bar>ph\<bar>" tor d xr rad ph p]
    by (simp_all add: LinearCCDArray_init_def)
  have one: "distribute_elements_on_radius p = Inr [(fst (radius p) + snd (radius p)) / 2]"
    using f assms(2) by (intro single_radius) simp_all
  then show ?thesis
    using f by (simp add: LinearCCDArray_calculate_elempos_def py_index_def except_ValueError_def)
qed

text \<open>The theorem at a placer with \<open>radius = [1, 2]\<close> and \<open>d_element = 2\<close>.\<close>

theorem calculate_elempos_one_element_IndexError_witness:
  "LinearCCDArray_init \<lparr>torus_R = 1, torus_r = 1, pos4d = identity_pose\<rparr> 2 (0, 3) (1, 2) 0
     = Inr \<lparr>rowland = \<lparr>torus_R = 1, torus_r = 1, pos4d = identity_pose\<rparr>, d_element = 2,
            x_range = (0, 3), radius = (1, 2), phi = 0\<rparr>
   \<and> (snd (1, 2) - fst (1, 2) \<le> (2::real))
   \<and> LinearCCDArray_calculate_elempos (\<lambda>f a b. Inr (a, True))
        \<lparr>rowland = \<lparr>torus_R = 1, torus_r = 1, pos4d = identity_pose\<rparr>, d_element = 2,
         x_range = (0, 3), radius = (1, 2), phi = 0\<rparr> = Inl IndexError"
proof -
  have h: "LinearCCDArray_init \<lparr>torus_R = 1, torus_r = 1, pos4d = identity_pose\<rparr> 2 (0, 3) (1, 2) 0
     = Inr \<lparr>rowland = \<lparr>torus_R = 1, torus_r = 1, pos4d = identity_pose\<rparr>, d_element = 2,
            x_range = (0, 3), radius = (1, 2), phi = 0\<rparr>"
    by (simp add: LinearCCDArray_init_def placer_init_def)
  show ?thesis
    using h calculate_elempos_one_element_IndexError[OF h, of "\<lambda>f a b. Inr (a, True)"] by simp
qed

subsection \<open>Root finding without a bracketed root\<close>

lemma quartic_slice_value:
  assumes "transform \<longrightarrow> det3 (lin (pos4d t)) \<noteq> 0"
  shows "\<exists>g. (\<forall>v. quartic_slice t x y z transform v = Inr (g v)) \<and> continuous_on UNIV g"
proof (cases transform)
  case False
  obtain x0 y0 z0 where c: "(coord_or_zero x, coord_or_zero y, coord_or_zero z) = (x0, y0, z0)"
    by simp
  let ?g = "\<lambda>v. quartic_local t (set_coord (x0, y0, z0) (free_index x y z) v)"
  have "continuous_on UNIV ?g"
    by (auto simp: free_index_def intro!: continuous_intros)
  moreover have "\<forall>v. quartic_slice t x y z transform v = Inr (?g v)"
    using False by (simp add: quartic_slice_def quartic_def c)
  ultimately show ?thesis by (intro exI[of _ ?g]) simp
next
  case True
  obtain a11 a12 a13 a21 a22 a23 a31 a32 a33 where
    L: "inv3 (lin (pos4d t)) = ((a11, a12, a13), (a21, a22, a23), (a31, a32, a33))"
    by (metis prod_cases3)
  obtain t1 t2 t3 where T: "smul (- 1) (mat_vec (inv3 (lin (pos4d t))) (trans (pos4d t))) = (t1, t2, t3)"
    by (metis prod_cases3)
  let ?ip = "\<lparr>lin = inv3 (lin (pos4d t)),
                trans = smul (- 1) (mat_vec (inv3 (lin (pos4d t))) (trans (pos4d t)))\<rparr>"
  let ?g = "\<lambda>v. quartic_local t (transform_point ?ip
              (set_coord (coord_or_zero x, coord_or_zero y, coord_or_zero z) (free_index x y z) v))"
  have "continuous_on UNIV ?g"
    by (auto simp: free_index_def transform_point_def L T intro!: continuous_intros)
  moreover have "\<forall>v. quartic_slice t x y z transform v = Inr (?g v)"
    using True assms by (simp add: quartic_slice_def quartic_def linalg_inv_def)
  ultimately show ?thesis by (intro exI[of _ ?g]) simp
qed

lemma ivt_sign:
  fixes g :: "real \<Rightarrow> real"
  assumes cont: "continuous_on UNIV g"
    and noroot: "\<forall>v. min a b \<le> v \<and> v \<le> max a b \<longrightarrow> g v \<noteq> 0"
  shows "0 < g a * g b"
proof (rule ccontr)
  assume "\<not> 0 < g a * g b"
  then have le: "g a * g b \<le> 0" by simp
  have ga: "g a \<noteq> 0" and gb: "g b \<noteq> 0"
    using noroot by (auto simp: min_def max_def)
  have c: "continuous_on {min a b..max a b} g"
    using cont continuous_on_subset by blast
  have "\<exists>v\<ge>min a b. v \<le> max a b \<and> g v = 0"
  proof (cases "g (min a b) \<le> 0")
    case True
    moreover have "0 \<le> g (max a b)"
      using le ga gb True by (auto simp: min_def max_def mult_le_0_iff split: if_splits)
    ultimately show ?thesis
      using IVT'[of g "min a b" 0 "max a b"] c by simp
  next
    case False
    then have "0 \<le> g (min a b)" by simp
    moreover have "g (max a b) \<le> 0"
      using le ga gb False by (auto simp: min_def max_def mult_le_0_iff split: if_splits)
    ultimately show ?thesis
      using IVT2'[of g "max a b" 0 "min a b"] c by simp
  qed
  with noroot show False by blast
qed


lemma sign_msg_recognised: "sublist sign_msg sign_msg"
  by simp

lemma other_messages_not_recognised:
  "\<not> sublist sign_msg ''Exactly one of the input numbers for x,y,z must be None.''"
  unfolding sign_msg_def by code_simp

text \<open>
  Claim C7. Let exactly one coordinate be left free and, when the coordinates are
  global, the pose be invertible. If the quartic along the free coordinate has the
  same sign at both ends of the search interval, or if it has no root anywhere between
  the two ends, then \<^verbatim>\<open>solve_quartic\<close> fails with the \<^verbatim>\<open>ValueError\<close> whose message is
  \<open>sign_msg\<close>, whatever the iteration of the root finder would do. The handler of the
  placer recognises this failure as "no intersection"; it does not take the two
  exceptions that \<^verbatim>\<open>solve_quartic\<close> raises by itself for it.
\<close>

theorem solve_quartic_no_intersection:
  assumes one: "length (filter (\<lambda>c. c = None) [x, y, z]) = 1"
    and pose: "transform \<longrightarrow> det3 (lin (pos4d t)) \<noteq> 0"
    and nobracket:
      "(\<exists>fa fb. quartic_slice t x y z transform a = Inr fa
          \<and> quartic_slice t x y z transform b = Inr fb \<and> 0 < fa * fb)
       \<or> (\<forall>v. min a b \<le> v \<and> v \<le> max a b \<longrightarrow> quartic_slice t x y z transform v \<noteq> Inr 0)"
  shows "solve_quartic iterate t x y z (a, b) transform = Inl (ValueError sign_msg)
    \<and> except_ValueError xr (solve_quartic iterate t x y z (a, b) transform)
        = Inl (ElementPlacementError xr)
    \<and> except_ValueError xr
        (Inl (ValueError ''Exactly one of the input numbers for x,y,z must be None.'') :: error + real)
        = Inl (ValueError ''Exactly one of the input numbers for x,y,z must be None.'')
    \<and> except_ValueError xr
        (Inl (GenericException ''Intersection with torus not found.'') :: error + real)
        = Inl (GenericException ''Intersection with torus not found.'')"
proof -
  obtain g where g: "\<forall>v. quartic_slice t x y z transform v = Inr (g v)"
    and cont: "continuous_on UNIV g"
    using quartic_slice_value[OF pose] by blast
  have "0 < g a * g b"
    using nobracket
  proof
    assume "\<exists>fa fb. quartic_slice t x y z transform a = Inr fa
          \<and> quartic_slice t x y z transform b = Inr fb \<and> 0 < fa * fb"
    then show ?thesis using g by auto
  next
    assume "\<forall>v. min a b \<le> v \<and> v \<le> max a b \<longrightarrow> quartic_slice t x y z transform v \<noteq> Inr 0"
    then have "\<forall>v. min a b \<le> v \<and> v \<le> max a b \<longrightarrow> g v \<noteq> 0"
      using g by simp
    then show ?thesis
      by (rule ivt_sign[OF cont])
  qed
  then have "brentq iterate (quartic_slice t x y z transform) a b = Inl (ValueError sign_msg)"
    using g by (simp add: brentq_def)
  then have res: "solve_quartic iterate t x y z (a, b) transform = Inl (ValueError sign_msg)"
    using one by (simp add: solve_quartic_def del: filter.simps)
  show ?thesis
    using res sign_msg_recognised other_messages_not_recognised
    by (simp add: except_ValueError_def)
qed

text \<open>
  The theorem for the torus with \<open>R = 2\<close>, \<open>r = 1\<close> on the local \<open>x\<close> axis, searched over
  \<open>[5, 6]\<close>, which lies outside the torus: the quartic is \<open>384\<close> and \<open>945\<close> at the ends.
\<close>

theorem solve_quartic_no_intersection_witness:
  "length (filter (\<lambda>c. c = None) [None, Some (0::real), Some 0]) = 1
   \<and> quartic_slice \<lparr>torus_R = 2, torus_r = 1, pos4d = identity_pose\<rparr> None (Some 0) (Some 0) False 5
       = Inr 384
   \<and> quartic_slice \<lparr>torus_R = 2, torus_r = 1, pos4d = identity_pose\<rparr> None (Some 0) (Some 0) False 6
       = Inr 945
   \<and> solve_quartic (\<lambda>f a b. Inr (a, True)) \<lparr>torus_R = 2, torus_r = 1, pos4d = identity_pose\<rparr>
        None (Some 0) (Some 0) (5, 6) False = Inl (ValueError sign_msg)
   \<and> except_ValueError (5, 6)
        (solve_quartic (\<lambda>f a b. Inr (a, True)) \<lparr>torus_R = 2, torus_r = 1, pos4d = identity_pose\<rparr>
           None (Some 0) (Some 0) (5, 6) False) = Inl (ElementPlacementError (5, 6))"
proof -
  let ?t = "\<lparr>torus_R = 2, torus_r = 1, pos4d = identity_pose\<rparr>"
  have a: "quartic_slice ?t None (Some 0) (Some 0) False 5 = Inr 384"
    and b: "quartic_slice ?t None (Some 0) (Some 0) False 6 = Inr 945"
    by (simp_all add: quartic_slice_def quartic_def free_index_def coord_or_zero_def)
  have one: "length (filter (\<lambda>c. c = None) [None, Some (0::real), Some 0]) = 1"
    by simp
  have h: "(\<exists>fa fb. quartic_slice ?t None (Some 0) (Some 0) False 5 = Inr fa
          \<and> quartic_slice ?t None (Some 0) (Some 0) False 6 = Inr fb \<and> 0 < fa * fb)
       \<or> (\<forall>v. min 5 6 \<le> v \<and> v \<le> max 5 6
            \<longrightarrow> quartic_slice ?t None (Some 0) (Some 0) False v \<noteq> Inr 0)"
    using a b by simp
  have p: "False \<longrightarrow> det3 (lin (pos4d ?t)) \<noteq> 0"
    by simp
  note th = solve_quartic_no_intersection[OF one p h, of "\<lambda>f a b. Inr (a, True)" "(5, 6)"]
  show ?thesis
    by (intro conjI) (rule one a b th[THEN conjunct1] th[THEN conjunct2, THEN conjunct1])+
qed

subsection \<open>From polar coordinates to the torus and back\<close>

lemma inv3_left:
  assumes "det3 A \<noteq> 0"
  shows "mat_vec (inv3 A) (mat_vec A v) = v"
proof -
  obtain a11 a12 a13 a21 a22 a23 a31 a32 a33 where
    A: "A = ((a11, a12, a13), (a21, a22, a23), (a31, a32, a33))"
    by (metis prod_cases3)
  obtain v1 v2 v3 where v: "v = (v1, v2, v3)"
    by (metis prod_cases3)
  define d where "d = det3 A"
  have d: "d \<noteq> 0" using assms by (simp add: d_def)
  have dd: "a11 * (a22 * a33 - a23 * a32) + a12 * (a23 * a31 - a21 * a33)
              + a13 * (a21 * a32 - a22 * a31) = d"
    by (simp add: d_def A)
  have e1: "(a22 * a33 - a23 * a32) * (a11 * v1 + a12 * v2 + a13 * v3)
          + (a32 * a13 - a33 * a12) * (a21 * v1 + a22 * v2 + a23 * v3)
          + (a12 * a23 - a13 * a22) * (a31 * v1 + a32 * v2 + a33 * v3) = d * v1"
    unfolding dd[symmetric] by (simp add: algebra_simps)
  have e2: "(a23 * a31 - a21 * a33) * (a11 * v1 + a12 * v2 + a13 * v3)
          + (a33 * a11 - a31 * a13) * (a21 * v1 + a22 * v2 + a23 * v3)
          + (a13 * a21 - a11 * a23) * (a31 * v1 + a32 * v2 + a33 * v3) = d * v2"
    unfolding dd[symmetric] by (simp add: algebra_simps)
  have e3: "(a21 * a32 - a22 * a31) * (a11 * v1 + a12 * v2 + a13 * v3)
          + (a31 * a12 - a32 * a11) * (a21 * v1 + a22 * v2 + a23 * v3)
          + (a11 * a22 - a12 * a21) * (a31 * v1 + a32 * v2 + a33 * v3) = d * v3"
    unfolding dd[symmetric] by (simp add: algebra_simps)
  have inv: "inv3 A = ((( a22 * a33 - a23 * a32) / d, (a32 * a13 - a33 * a12) / d, (a12 * a23 - a13 * a22) / d),
                       ((a23 * a31 - a21 * a33) / d, (a33 * a11 - a31 * a13) / d, (a13 * a21 - a11 * a23) / d),
                       ((a21 * a32 - a22 * a31) / d, (a31 * a12 - a32 * a11) / d, (a11 * a22 - a12 * a21) / d))"
    using dd by (simp add: A Let_def)
  have "mat_vec (inv3 A) (mat_vec A v) = ((d * v1) / d, (d * v2) / d, (d * v3) / d)"
    unfolding inv e1[symmetric] e2[symmetric] e3[symmetric]
    by (simp add: A v add_divide_distrib)
  then show ?thesis
    using d by (simp add: v)
qed

lemma to_local_transform_point:
  assumes "det3 (lin (pos4d t)) \<noteq> 0"
  shows "to_local t (transform_point (pos4d t) v) = Inr v"
proof -
  obtain w1 w2 w3 where w: "mat_vec (lin (pos4d t)) v = (w1, w2, w3)"
    by (metis prod_cases3)
  obtain t1 t2 t3 where t: "trans (pos4d t) = (t1, t2, t3)"
    by (metis prod_cases3)
  obtain b11 b12 b13 b21 b22 b23 b31 b32 b33 where
    B: "inv3 (lin (pos4d t)) = ((b11, b12, b13), (b21, b22, b23), (b31, b32, b33))"
    by (metis prod_cases3)
  have "vadd (mat_vec (inv3 (lin (pos4d t))) (vadd (w1, w2, w3) (t1, t2, t3)))
             (smul (- 1) (mat_vec (inv3 (lin (pos4d t))) (t1, t2, t3)))
        = mat_vec (inv3 (lin (pos4d t))) (w1, w2, w3)"
    by (simp add: B algebra_simps)
  also have "\<dots> = v"
    unfolding w[symmetric] by (rule inv3_left[OF assms])
  finally show ?thesis
    using assms by (simp add: to_local_def linalg_inv_def transform_point_def w t)
qed


lemma arctan2_polar:
  assumes "0 < \<rho>"
  shows "cos (np_arctan2 (\<rho> * sin \<theta>) (\<rho> * cos \<theta>)) = cos \<theta>
       \<and> sin (np_arctan2 (\<rho> * sin \<theta>) (\<rho> * cos \<theta>)) = sin \<theta>"
proof -
  have sc: "(sin \<theta>)\<^sup>2 + (cos \<theta>)\<^sup>2 = 1" by simp
  consider (pos) "0 < cos \<theta>" | (neg) "cos \<theta> < 0" | (zero) "cos \<theta> = 0"
    by linarith
  then show ?thesis
  proof cases
    case pos
    have q: "\<rho> * sin \<theta> / (\<rho> * cos \<theta>) = tan \<theta>"
      using assms by (simp add: tan_def)
    have "1 + (tan \<theta>)\<^sup>2 = 1 / (cos \<theta>)\<^sup>2"
      using pos sc by (simp add: tan_def field_simps power2_eq_square)
    then have s: "sqrt (1 + (tan \<theta>)\<^sup>2) = 1 / cos \<theta>"
      using pos by (simp add: real_sqrt_divide)
    have a: "np_arctan2 (\<rho> * sin \<theta>) (\<rho> * cos \<theta>) = arctan (tan \<theta>)"
      using pos assms q by (simp add: np_arctan2_def)
    show ?thesis
      unfolding a cos_arctan sin_arctan s using pos by (simp add: tan_def)
  next
    case neg
    have q: "\<rho> * sin \<theta> / (\<rho> * cos \<theta>) = tan \<theta>"
      using assms by (simp add: tan_def)
    have "1 + (tan \<theta>)\<^sup>2 = 1 / (cos \<theta>)\<^sup>2"
      using neg sc by (simp add: tan_def field_simps power2_eq_square)
    then have s: "sqrt (1 + (tan \<theta>)\<^sup>2) = - 1 / cos \<theta>"
      using neg by (simp add: real_sqrt_divide)
    have y: "\<rho> * cos \<theta> < 0"
      using neg assms by (simp add: mult_pos_neg)
    have a: "np_arctan2 (\<rho> * sin \<theta>) (\<rho> * cos \<theta>) = arctan (tan \<theta>) + pi
           \<or> np_arctan2 (\<rho> * sin \<theta>) (\<rho> * cos \<theta>) = arctan (tan \<theta>) - pi"
      using y q by (simp add: np_arctan2_def del: mult_less_0_iff)
    have c: "cos (arctan (tan \<theta>)) = - cos \<theta>" and sn: "sin (arctan (tan \<theta>)) = - sin \<theta>"
      unfolding cos_arctan sin_arctan s using neg by (simp_all add: tan_def)
    from a show ?thesis
      using c sn by (auto simp: cos_diff sin_diff)
  next
    case zero
    then have s1: "(sin \<theta>)\<^sup>2 = 1" using sc by simp
    then have "sin \<theta> = 1 \<or> sin \<theta> = - 1"
      by (simp add: power2_eq_1_iff)
    then show ?thesis
      using zero assms by (auto simp: np_arctan2_def)
  qed
qed

lemma arctan2_polar_angle:
  assumes "0 < \<rho>"
  shows "\<exists>k::int. np_arctan2 (\<rho> * sin \<theta>) (\<rho> * cos \<theta>) = \<theta> + 2 * pi * of_int k"
proof -
  let ?a = "np_arctan2 (\<rho> * sin \<theta>) (\<rho> * cos \<theta>)"
  have "cos (?a - \<theta>) = (cos \<theta>)\<^sup>2 + (sin \<theta>)\<^sup>2"
    using arctan2_polar[OF assms, of \<theta>] by (simp add: cos_diff power2_eq_square)
  then have "cos (?a - \<theta>) = 1" by simp
  then obtain k :: int where "?a - \<theta> = of_int k * 2 * pi"
    using cos_one_2pi_int by blast
  then have "?a = \<theta> + 2 * pi * of_int k" by (simp add: algebra_simps)
  then show ?thesis by blast
qed

lemma polar_radius:
  assumes "0 < \<rho>"
  shows "sqrt ((\<rho> * cos \<theta>)\<^sup>2 + (\<rho> * sin \<theta>)\<^sup>2) = \<rho>"
proof -
  have "(\<rho> * cos \<theta>)\<^sup>2 + (\<rho> * sin \<theta>)\<^sup>2 = \<rho>\<^sup>2 * ((cos \<theta>)\<^sup>2 + (sin \<theta>)\<^sup>2)"
    by (simp only: power_mult_distrib distrib_left)
  also have "\<dots> = \<rho>\<^sup>2"
    by simp
  finally show ?thesis using assms by simp
qed

text \<open>
  Claim C2. Let the radius be positive and the pose of the torus invertible. If
  \<^verbatim>\<open>xyz_from_radiusangle(radius, angle, interval)\<close> returns a point, then that point
  taken into the local frame of the torus has coordinates \<open>(x, y, z)\<close> with
  \<open>sqrt (y\<^sup>2 + z\<^sup>2) = radius\<close> and \<open>arctan2 z y = angle\<close> up to a multiple of \<open>2 pi\<close>. In
  exact arithmetic the round trip is an equation.
\<close>

theorem xyz_from_radiusangle_roundtrip:
  assumes "0 < radius'"
    and "det3 (lin (pos4d t)) \<noteq> 0"
    and "xyz_from_radiusangle iterate t radius' angle interval = Inr p"
  shows "\<exists>x y z. to_local t p = Inr (x, y, z)
           \<and> sqrt (y\<^sup>2 + z\<^sup>2) = radius'
           \<and> (\<exists>k::int. np_arctan2 z y = angle + 2 * pi * of_int k)"
proof -
  from assms(3) obtain x where
    p: "p = transform_point (pos4d t) (x, radius' * cos angle, radius' * sin angle)"
    by (auto simp: xyz_from_radiusangle_def Let_def bind_e_def split: sum.splits)
  have "to_local t p = Inr (x, radius' * cos angle, radius' * sin angle)"
    unfolding p by (rule to_local_transform_point[OF assms(2)])
  then show ?thesis
    using polar_radius[OF assms(1), of angle] arctan2_polar_angle[OF assms(1), of angle]
    by blast
qed

text \<open>
  The theorem for the torus with \<open>R = 4\<close>, \<open>r = 1\<close>, radius \<open>3\<close> and angle \<open>pi / 2\<close>: along
  \<open>y = 0\<close>, \<open>z = 3\<close> the quartic is \<open>x\<^sup>2 (x\<^sup>2 - 16)\<close>, which changes sign in \<open>[3, 5]\<close> at the
  root \<open>4\<close> that the iteration returns.
\<close>

theorem xyz_from_radiusangle_roundtrip_witness:
  "(0::real) < 3
   \<and> det3 (lin (pos4d \<lparr>torus_R = 4, torus_r = 1, pos4d = identity_pose\<rparr>)) \<noteq> 0
   \<and> xyz_from_radiusangle (\<lambda>f a b. Inr (4, True))
        \<lparr>torus_R = 4, torus_r = 1, pos4d = identity_pose\<rparr> 3 (pi / 2) (3, 5) = Inr (4, 0, 3)
   \<and> (\<exists>x y z. to_local \<lparr>torus_R = 4, torus_r = 1, pos4d = identity_pose\<rparr> (4, 0, 3) = Inr (x, y, z)
           \<and> sqrt (y\<^sup>2 + z\<^sup>2) = 3
           \<and> (\<exists>k::int. np_arctan2 z y = pi / 2 + 2 * pi * of_int k))"
proof -
  let ?t = "\<lparr>torus_R = 4, torus_r = 1, pos4d = identity_pose\<rparr>"
  have r: "(0::real) < 3" by simp
  have d: "det3 (lin (pos4d ?t)) \<noteq> 0"
    by (simp add: identity_pose_def identity3_def)
  have x: "xyz_from_radiusangle (\<lambda>f a b. Inr (4, True)) ?t 3 (pi / 2) (3, 5) = Inr (4, 0, 3)"
    by (simp add: xyz_from_radiusangle_def solve_quartic_def brentq_def quartic_slice_def
        quartic_def free_index_def coord_or_zero_def transform_point_def identity_pose_def
        identity3_def)
  show ?thesis
    using r d x xyz_from_radiusangle_roundtrip[OF r d x] by blast
qed


subsection \<open>The normal field\<close>

lemma mapM_e_Inr:
  assumes "\<forall>x\<in>set xs. f x = Inr (g x)"
  shows "mapM_e f xs = Inr (map g xs)"
  using assms by (induction xs) simp_all

lemma norm3_zero_iff: "norm3 g = 0 \<longleftrightarrow> g = (0, 0, 0)"
proof -
  obtain a b c where g: "g = (a, b, c)" by (metis prod_cases3)
  have "a * a + b * b + c * c = 0 \<longleftrightarrow> a = 0 \<and> b = 0 \<and> c = 0"
    by (smt (verit) mult_nonneg_nonneg mult_nonpos_nonpos mult_eq_0_iff zero_le_square add_nonneg_eq_0_iff)
  then show ?thesis
    by (simp add: g norm3_def)
qed

lemma abs_sum_zero_iff: "abs_sum g = 0 \<longleftrightarrow> g = (0, 0, 0)"
proof -
  obtain a b c where g: "g = (a, b, c)" by (metis prod_cases3)
  show ?thesis by (auto simp: g)
qed

lemma dot_self_nonneg: "0 \<le> dot g g"
proof -
  obtain a b c where g: "g = (a, b, c)" by (metis prod_cases3)
  show ?thesis by (simp add: g add_nonneg_nonneg)
qed

lemma dot_self_norm3: "dot g g = (norm3 g)\<^sup>2"
  by (simp add: norm3_def dot_self_nonneg)

lemma norm3_nonneg: "0 \<le> norm3 g"
  by (simp add: norm3_def dot_self_nonneg)

lemma dot_smul_left: "dot (smul k u) v = k * dot u v"
proof -
  obtain a b c where u: "u = (a, b, c)" by (metis prod_cases3)
  obtain d e f where v: "v = (d, e, f)" by (metis prod_cases3)
  show ?thesis by (simp add: u v algebra_simps)
qed

lemma dot_smul_right: "dot u (smul k v) = k * dot u v"
proof -
  obtain a b c where u: "u = (a, b, c)" by (metis prod_cases3)
  obtain d e f where v: "v = (d, e, f)" by (metis prod_cases3)
  show ?thesis by (simp add: u v algebra_simps)
qed

lemma norm3_unit:
  assumes "g \<noteq> (0, 0, 0)"
  shows "norm3 (smul (1 / norm3 g) g) = 1"
proof -
  have n: "norm3 g \<noteq> 0" using assms by (simp add: norm3_zero_iff)
  define k where "k = 1 / norm3 g"
  have "dot (smul k g) (smul k g) = k * (k * dot g g)"
    by (simp only: dot_smul_left dot_smul_right)
  also have "\<dots> = k * (k * (norm3 g)\<^sup>2)"
    by (simp only: dot_self_norm3)
  also have "\<dots> = 1"
    using n by (simp add: k_def power2_eq_square)
  finally show ?thesis
    unfolding norm3_def k_def by simp
qed

lemma orthonormal_dot:
  assumes "orthonormal A"
  shows "dot (mat_vec A u) (mat_vec A v) = dot u v"
proof -
  obtain a11 a12 a13 a21 a22 a23 a31 a32 a33 where
    A: "A = ((a11, a12, a13), (a21, a22, a23), (a31, a32, a33))"
    by (metis prod_cases3)
  obtain u1 u2 u3 where u: "u = (u1, u2, u3)" by (metis prod_cases3)
  obtain v1 v2 v3 where v: "v = (v1, v2, v3)" by (metis prod_cases3)
  from assms have o:
    "a11 * a11 + a21 * a21 + a31 * a31 = 1" "a12 * a12 + a22 * a22 + a32 * a32 = 1"
    "a13 * a13 + a23 * a23 + a33 * a33 = 1" "a11 * a12 + a21 * a22 + a31 * a32 = 0"
    "a11 * a13 + a21 * a23 + a31 * a33 = 0" "a12 * a13 + a22 * a23 + a32 * a33 = 0"
    by (simp_all add: orthonormal_def A)
  have "dot (mat_vec A u) (mat_vec A v)
      = (a11 * a11 + a21 * a21 + a31 * a31) * (u1 * v1)
      + (a12 * a12 + a22 * a22 + a32 * a32) * (u2 * v2)
      + (a13 * a13 + a23 * a23 + a33 * a33) * (u3 * v3)
      + (a11 * a12 + a21 * a22 + a31 * a32) * (u1 * v2 + u2 * v1)
      + (a11 * a13 + a21 * a23 + a31 * a33) * (u1 * v3 + u3 * v1)
      + (a12 * a13 + a22 * a23 + a32 * a33) * (u2 * v3 + u3 * v2)"
    by (simp add: A u v algebra_simps)
  then show ?thesis
    unfolding o by (simp add: u v)
qed

lemma orthonormal_norm3:
  assumes "orthonormal A"
  shows "norm3 (mat_vec A v) = norm3 v"
  by (simp add: norm3_def orthonormal_dot[OF assms])


lemma identity_pose_simps:
  "transform_point identity_pose v = v"
  "transform_vector identity_pose v = v"
  "linalg_inv identity_pose = Inr identity_pose"
  "det3 (lin identity_pose) = 1"
proof -
  obtain a b c where v: "v = (a, b, c)" by (metis prod_cases3)
  show "transform_point identity_pose v = v"
    by (simp add: transform_point_def identity_pose_def identity3_def v)
  show "transform_vector identity_pose v = v"
    by (simp add: transform_vector_def identity_pose_def identity3_def v)
  show "linalg_inv identity_pose = Inr identity_pose"
    by (simp add: linalg_inv_def identity_pose_def identity3_def)
  show "det3 (lin identity_pose) = 1"
    by (simp add: identity_pose_def identity3_def)
qed

lemma centre_local:
  fixes t :: torus
  assumes "linalg_inv (pos4d t) = Inr ip"
  shows "transform_point ip (trans (pos4d t)) = (0, 0, 0)"
proof -
  have d: "det3 (lin (pos4d t)) \<noteq> 0"
    using assms by (auto simp: linalg_inv_def split: if_splits)
  obtain r0 r1 r2 where L: "lin (pos4d t) = (r0, r1, r2)" by (metis prod_cases3)
  obtain a b c where r0: "r0 = (a, b, c)" by (metis prod_cases3)
  obtain a' b' c' where r1: "r1 = (a', b', c')" by (metis prod_cases3)
  obtain a'' b'' c'' where r2: "r2 = (a'', b'', c'')" by (metis prod_cases3)
  obtain t1 t2 t3 where T: "trans (pos4d t) = (t1, t2, t3)" by (metis prod_cases3)
  have "transform_point (pos4d t) (0, 0, 0) = trans (pos4d t)"
    by (simp add: transform_point_def L r0 r1 r2 T)
  then have "to_local t (trans (pos4d t)) = Inr (0, 0, 0)"
    using to_local_transform_point[OF d, of "(0, 0, 0)"] by simp
  then show ?thesis
    using assms by (simp add: to_local_def)
qed

text \<open>
  The formulas \<^verbatim>\<open>dFdx\<close>, \<^verbatim>\<open>dFdy\<close>, \<^verbatim>\<open>dFdz\<close> of \<^verbatim>\<open>normal\<close> are the partial derivatives of the
  quartic, and nothing else is.
\<close>

lemma gradient_local_is_gradient: "is_quartic_gradient t p (gradient_local t p)"
proof -
  obtain x y z where p: "p = (x, y, z)" by (metis prod_cases3)
  have dx: "((\<lambda>u. quartic_local t (u, y, z)) has_real_derivative
              (4 * ((x\<^sup>2 + y\<^sup>2 + z\<^sup>2) + (torus_R t)\<^sup>2 - (torus_r t)\<^sup>2) * x
                 - 8 * (torus_R t)\<^sup>2 * x)) (at x)"
    by (auto intro!: derivative_eq_intros simp: algebra_simps)
  have dy: "((\<lambda>u. quartic_local t (x, u, z)) has_real_derivative
              (4 * ((x\<^sup>2 + y\<^sup>2 + z\<^sup>2) + (torus_R t)\<^sup>2 - (torus_r t)\<^sup>2) * y)) (at y)"
    by (auto intro!: derivative_eq_intros simp: algebra_simps)
  have dz: "((\<lambda>u. quartic_local t (x, y, u)) has_real_derivative
              (4 * ((x\<^sup>2 + y\<^sup>2 + z\<^sup>2) + (torus_R t)\<^sup>2 - (torus_r t)\<^sup>2) * z
                 - 8 * (torus_R t)\<^sup>2 * z)) (at z)"
    by (auto intro!: derivative_eq_intros simp: algebra_simps)
  show ?thesis
    using dx dy dz by (simp add: is_quartic_gradient_def p Let_def)
qed

lemma quartic_gradient_unique:
  assumes "is_quartic_gradient t p g"
  shows "g = gradient_local t p"
proof -
  obtain x y z where p: "p = (x, y, z)" by (metis prod_cases3)
  obtain gx gy gz where g: "g = (gx, gy, gz)" by (metis prod_cases3)
  obtain hx hy hz where h: "gradient_local t p = (hx, hy, hz)" by (metis prod_cases3)
  have a: "is_quartic_gradient t (x, y, z) (gx, gy, gz)"
    using assms by (simp add: p g)
  have b: "is_quartic_gradient t (x, y, z) (hx, hy, hz)"
    using gradient_local_is_gradient[of t p] by (simp only: h) (simp only: p)
  have "gx = hx" "gy = hy" "gz = hz"
    using a b by (auto simp: is_quartic_gradient_def intro: DERIV_unique)
  then show ?thesis by (simp add: g h)
qed

lemma mat_vec_smul: "mat_vec A (smul k v) = smul k (mat_vec A v)"
proof -
  obtain a11 a12 a13 a21 a22 a23 a31 a32 a33 where
    A: "A = ((a11, a12, a13), (a21, a22, a23), (a31, a32, a33))"
    by (metis prod_cases3)
  obtain v1 v2 v3 where v: "v = (v1, v2, v3)" by (metis prod_cases3)
  show ?thesis by (simp add: A v algebra_simps)
qed

lemma mat_vec_zero: "mat_vec A (0, 0, 0) = (0, 0, 0)"
proof -
  obtain a11 a12 a13 a21 a22 a23 a31 a32 a33 where
    A: "A = ((a11, a12, a13), (a21, a22, a23), (a31, a32, a33))"
    by (metis prod_cases3)
  show ?thesis by (simp add: A)
qed


text \<open>
  At the centre of a torus with \<open>R = r\<close>, a single point of shape \<open>(3)\<close> and
  \<^verbatim>\<open>origin="raise"\<close> end in the \<^verbatim>\<open>IndexError\<close> of line 225, not in the ambiguity error.
\<close>

lemma normal_single_point_raise:
  assumes "torus_R t = torus_r t" and "torus_R t \<noteq> 0" and "det3 (lin (pos4d t)) \<noteq> 0"
  shows "normal t (Point (trans (pos4d t))) (Some OriginRaise) = Inl IndexError"
proof -
  obtain ip where ip: "linalg_inv (pos4d t) = Inr ip"
    using assms(3) by (simp add: linalg_inv_def)
  have loc: "transform_point ip (trans (pos4d t)) = (0, 0, 0)"
    by (rule centre_local[OF ip])
  have q: "quartic t (0, 0, 0) False = Inr 0"
    using assms(1) by (simp add: quartic_def)
  have close: "np_allclose_zero [np_divide 0 (torus_R t ^ 4)]"
    using assms(2) by (simp add: np_allclose_zero_def np_divide_def)
  have g: "gradient_local t (0, 0, 0) = (0, 0, 0)"
    by simp
  show ?thesis
    by (simp add: normal_def ip loc q close g del: gradient_local.simps)
qed

text \<open>
  Claim C6, as amended. For a torus with \<open>R = r\<close>, \<open>R\<close> not zero and an invertible pose,
  \<^verbatim>\<open>normal\<close> at the centre of the torus (the translation of its pose), given in an array
  of shape \<open>(N, 3)\<close>, fails with the ambiguity error when the caller passes
  \<^verbatim>\<open>origin="raise"\<close>. With a nonzero 3-vector as \<^verbatim>\<open>origin\<close> it returns that vector,
  normalised and then transformed to the global frame, and with the argument left out
  it returns the default direction \<open>(-1, 0, 0)\<close> of the signature, transformed to the
  global frame; both hold for either shape of the point.
\<close>

theorem normal_at_degenerate_centre:
  assumes "torus_R t = torus_r t" and "torus_R t \<noteq> 0" and "det3 (lin (pos4d t)) \<noteq> 0"
  shows "normal t (Points [trans (pos4d t)]) (Some OriginRaise) = Inl (AmbiguousNormal [(0, 0, 0)])
    \<and> ((v1, v2, v3) \<noteq> (0, 0, 0) \<longrightarrow>
         normal t (Points [trans (pos4d t)]) (Some (OriginVector [v1, v2, v3]))
           = Inr [transform_vector (pos4d t) (smul (1 / norm3 (v1, v2, v3)) (v1, v2, v3))]
         \<and> normal t (Point (trans (pos4d t))) (Some (OriginVector [v1, v2, v3]))
           = Inr [transform_vector (pos4d t) (smul (1 / norm3 (v1, v2, v3)) (v1, v2, v3))])
    \<and> normal t (Points [trans (pos4d t)]) None = Inr [transform_vector (pos4d t) (- 1, 0, 0)]
    \<and> normal t (Point (trans (pos4d t))) None = Inr [transform_vector (pos4d t) (- 1, 0, 0)]"
proof -
  obtain ip where ip: "linalg_inv (pos4d t) = Inr ip"
    using assms(3) by (simp add: linalg_inv_def)
  have loc: "transform_point ip (trans (pos4d t)) = (0, 0, 0)"
    by (rule centre_local[OF ip])
  have q: "quartic t (0, 0, 0) False = Inr 0"
    using assms(1) by (simp add: quartic_def)
  have close: "np_allclose_zero [np_divide 0 (torus_R t ^ 4)]"
    using assms(2) by (simp add: np_allclose_zero_def np_divide_def)
  have g: "gradient_local t (0, 0, 0) = (0, 0, 0)"
    by simp
  have n1: "norm3 (- 1, 0, 0) = 1"
    by (simp add: norm3_def)
  have raise: "normal t (Points [trans (pos4d t)]) (Some OriginRaise)
                 = Inl (AmbiguousNormal [(0, 0, 0)])"
    by (simp add: normal_def ip loc q close g del: gradient_local.simps)
  have dflt: "normal t xyz None = Inr [transform_vector (pos4d t) (- 1, 0, 0)]"
    if "point_rows xyz = [trans (pos4d t)]" for xyz
    by (simp add: normal_def that ip loc q close g origin_default_def row_over_norm_def n1
        del: gradient_local.simps)
  have vec: "normal t xyz (Some (OriginVector [v1, v2, v3]))
           = Inr [transform_vector (pos4d t) (smul (1 / norm3 (v1, v2, v3)) (v1, v2, v3))]"
    if nz: "(v1, v2, v3) \<noteq> (0, 0, 0)" and rows: "point_rows xyz = [trans (pos4d t)]" for xyz
  proof -
    have "norm3 (v1, v2, v3) \<noteq> 0"
      using nz by (simp only: norm3_zero_iff not_False_eq_True)
    then show ?thesis
      by (simp add: normal_def rows ip loc q close g row_over_norm_def
          del: gradient_local.simps smul.simps)
  qed
  show ?thesis
    using raise dflt[of "Points [trans (pos4d t)]"] dflt[of "Point (trans (pos4d t))"]
      vec[of "Points [trans (pos4d t)]"] vec[of "Point (trans (pos4d t))"]
    by simp
qed

text \<open>
  Claim C6 as stated fails: called without a fallback direction at the centre of the
  torus with \<open>R = r = 1\<close>, \<^verbatim>\<open>normal\<close> does not fail but returns the default direction.
\<close>

theorem normal_default_origin_counterexample:
  "normal \<lparr>torus_R = 1, torus_r = 1, pos4d = identity_pose\<rparr> (Points [(0, 0, 0)]) None
     = Inr [(- 1, 0, 0)]
   \<and> normal \<lparr>torus_R = 1, torus_r = 1, pos4d = identity_pose\<rparr> (Point (0, 0, 0)) None
     = Inr [(- 1, 0, 0)]"
proof -
  have n1: "norm3 (- 1, 0, 0) = 1"
    by (simp add: norm3_def)
  show ?thesis
    by (simp add: normal_def identity_pose_simps quartic_def np_allclose_zero_def np_divide_def
        origin_default_def row_over_norm_def n1)
qed

text \<open>The amended claim at the torus with \<open>R = r = 1\<close> and the fallback \<open>(0, 3, 4)\<close>.\<close>

theorem normal_at_degenerate_centre_witness:
  "torus_R \<lparr>torus_R = 1, torus_r = 1, pos4d = identity_pose\<rparr>
      = torus_r \<lparr>torus_R = 1, torus_r = 1, pos4d = identity_pose\<rparr>
   \<and> det3 (lin identity_pose) \<noteq> 0
   \<and> normal \<lparr>torus_R = 1, torus_r = 1, pos4d = identity_pose\<rparr> (Points [(0, 0, 0)])
        (Some OriginRaise) = Inl (AmbiguousNormal [(0, 0, 0)])
   \<and> normal \<lparr>torus_R = 1, torus_r = 1, pos4d = identity_pose\<rparr> (Points [(0, 0, 0)])
        (Some (OriginVector [0, 3, 4])) = Inr [(0, 3 / 5, 4 / 5)]
   \<and> normal \<lparr>torus_R = 1, torus_r = 1, pos4d = identity_pose\<rparr> (Point (0, 0, 0))
        (Some (OriginVector [0, 3, 4])) = Inr [(0, 3 / 5, 4 / 5)]"
proof -
  let ?t = "\<lparr>torus_R = 1, torus_r = 1, pos4d = identity_pose\<rparr>"
  have a: "torus_R ?t = torus_r ?t" and b: "torus_R ?t \<noteq> 0" by simp_all
  have c: "det3 (lin (pos4d ?t)) \<noteq> 0"
    by (simp add: identity_pose_def identity3_def)
  have tr: "trans (pos4d ?t) = (0, 0, 0)"
    by (simp add: identity_pose_def)
  have n: "norm3 (0, 3, 4) = 5"
  proof -
    have "sqrt 25 = sqrt (5\<^sup>2)" by simp
    then show ?thesis unfolding norm3_def by (simp del: real_sqrt_four)
  qed
  have nz: "((0::real), (3::real), (4::real)) \<noteq> (0, 0, 0)" by simp
  note th = normal_at_degenerate_centre[OF a b c, of 0 3 4, unfolded tr]
  have v: "normal ?t (Points [(0, 0, 0)]) (Some (OriginVector [0, 3, 4]))
        = Inr [transform_vector (pos4d ?t) (smul (1 / norm3 (0, 3, 4)) (0, 3, 4))]"
    and w: "normal ?t (Point (0, 0, 0)) (Some (OriginVector [0, 3, 4]))
        = Inr [transform_vector (pos4d ?t) (smul (1 / norm3 (0, 3, 4)) (0, 3, 4))]"
    using th nz by blast+
  have "transform_vector (pos4d ?t) (smul (1 / norm3 (0, 3, 4)) (0, 3, 4)) = (0, 3 / 5, 4 / 5)"
    unfolding n by (simp add: transform_vector_def identity_pose_def identity3_def)
  with v w th a c show ?thesis by simp
qed


lemma quartic_untransformed: "quartic t p False = Inr (quartic_local t p)"
  by (simp add: quartic_def)

lemma mat_vec_nonzero:
  assumes "det3 A \<noteq> 0" and "g \<noteq> (0, 0, 0)"
  shows "mat_vec A g \<noteq> (0, 0, 0)"
proof
  assume "mat_vec A g = (0, 0, 0)"
  then have "mat_vec (inv3 A) (mat_vec A g) = (0, 0, 0)"
    by (simp only: mat_vec_zero)
  then show False
    using inv3_left[OF assms(1), of g] assms(2) by simp
qed

lemma outward_normal:
  assumes "det3 A \<noteq> 0" and "g \<noteq> (0, 0, 0)"
  shows "0 < dot (mat_vec A (smul (1 / norm3 g) g)) (mat_vec A g)"
proof -
  have n: "0 < norm3 g"
    using assms(2) norm3_nonneg[of g] norm3_zero_iff[of g] by linarith
  have "mat_vec A g \<noteq> (0, 0, 0)"
    by (rule mat_vec_nonzero[OF assms])
  then have m: "0 < norm3 (mat_vec A g)"
    using norm3_nonneg[of "mat_vec A g"] norm3_zero_iff[of "mat_vec A g"] by linarith
  have "dot (mat_vec A (smul (1 / norm3 g) g)) (mat_vec A g)
          = 1 / norm3 g * (norm3 (mat_vec A g))\<^sup>2"
    by (simp only: mat_vec_smul dot_smul_left dot_self_norm3)
  also have "0 < \<dots>"
    using n m by simp
  finally show ?thesis .
qed

lemma unit_normal:
  assumes "orthonormal A" and "g \<noteq> (0, 0, 0)"
  shows "norm3 (mat_vec A (smul (1 / norm3 g) g)) = 1"
  by (simp only: orthonormal_norm3[OF assms(1)] norm3_unit[OF assms(2)])

text \<open>
  Claim C1, as amended. Let the pose of the torus be invertible. If every point passes
  the surface test (the quartic divided by \<open>R\<^sup>4\<close> is within \<open>1e-8\<close> of zero) at a place
  where the gradient of the quartic is not the zero vector, then \<^verbatim>\<open>normal\<close> returns one
  vector per point, each with a positive dot product with the gradient of the quartic
  (its partial derivatives, taken to the global frame), and each of length one when the
  linear block of the pose is orthonormal. If some point does not pass the surface
  test, \<^verbatim>\<open>normal\<close> fails with the "point not on surface" error.
\<close>

theorem normal_unit_outward:
  fixes t :: torus
  assumes inv: "linalg_inv (pos4d t) = Inr invpos4d"
  shows "((\<forall>p\<in>set (point_rows xyz).
                np_allclose_zero
                  [np_divide (quartic_local t (transform_point invpos4d p)) (torus_R t ^ 4)]
                \<and> \<not> is_quartic_gradient t (transform_point invpos4d p) (0, 0, 0))
         \<longrightarrow> (\<exists>ns. normal t xyz origin_arg = Inr ns \<and> length ns = length (point_rows xyz)
                \<and> (\<forall>i<length ns. \<exists>g.
                      is_quartic_gradient t (transform_point invpos4d (point_rows xyz ! i)) g
                      \<and> 0 < dot (ns ! i) (transform_vector (pos4d t) g)
                      \<and> (orthonormal (lin (pos4d t)) \<longrightarrow> norm3 (ns ! i) = 1))))
       \<and> ((\<exists>p\<in>set (point_rows xyz).
              \<not> np_allclose_zero
                  [np_divide (quartic_local t (transform_point invpos4d p)) (torus_R t ^ 4)])
         \<longrightarrow> normal t xyz origin_arg
               = Inl (ValueError
                   ''Gradient vector field is only defined for points on torus surface.''))"
proof -
  define pts where "pts = point_rows xyz"
  define xyz' where "xyz' = map (transform_point invpos4d) pts"
  have det: "det3 (lin (pos4d t)) \<noteq> 0"
    using inv by (auto simp: linalg_inv_def split: if_splits)
  have qs: "mapM_e (\<lambda>p. quartic t p False) xyz' = Inr (map (quartic_local t) xyz')"
    by (rule mapM_e_Inr) (simp add: quartic_untransformed)
  have close_iff: "np_allclose_zero (map (\<lambda>q. np_divide q (torus_R t ^ 4)) (map (quartic_local t) xyz'))
      \<longleftrightarrow> (\<forall>p\<in>set pts. np_allclose_zero
                  [np_divide (quartic_local t (transform_point invpos4d p)) (torus_R t ^ 4)])"
    by (simp add: xyz'_def np_allclose_zero_def list_all_iff)
  have off: "normal t xyz origin_arg
               = Inl (ValueError
                   ''Gradient vector field is only defined for points on torus surface.'')"
    if "\<exists>p\<in>set pts.
              \<not> np_allclose_zero
                  [np_divide (quartic_local t (transform_point invpos4d p)) (torus_R t ^ 4)]"
  proof -
    have "\<not> np_allclose_zero (map (\<lambda>q. np_divide q (torus_R t ^ 4)) (map (quartic_local t) xyz'))"
      using close_iff that by blast
    then show ?thesis
      by (simp add: normal_def inv pts_def[symmetric] xyz'_def[symmetric] qs Let_def
          del: map_map)
  qed
  have on: "\<exists>ns. normal t xyz origin_arg = Inr ns \<and> length ns = length pts
                \<and> (\<forall>i<length ns. \<exists>g.
                      is_quartic_gradient t (transform_point invpos4d (pts ! i)) g
                      \<and> 0 < dot (ns ! i) (transform_vector (pos4d t) g)
                      \<and> (orthonormal (lin (pos4d t)) \<longrightarrow> norm3 (ns ! i) = 1))"
    if h: "\<forall>p\<in>set pts.
                np_allclose_zero
                  [np_divide (quartic_local t (transform_point invpos4d p)) (torus_R t ^ 4)]
                \<and> \<not> is_quartic_gradient t (transform_point invpos4d p) (0, 0, 0)"
  proof -
    define gradient where "gradient = map (gradient_local t) xyz'"
    define ns where "ns = map (transform_vector (pos4d t))
                            (map (\<lambda>g. smul (1 / norm3 g) g) gradient)"
    have close: "np_allclose_zero (map (\<lambda>q. np_divide q (torus_R t ^ 4)) (map (quartic_local t) xyz'))"
      using close_iff h by blast
    have nzp: "gradient_local t (transform_point invpos4d p) \<noteq> (0, 0, 0)" if "p \<in> set pts" for p
    proof
      assume "gradient_local t (transform_point invpos4d p) = (0, 0, 0)"
      then have "is_quartic_gradient t (transform_point invpos4d p) (0, 0, 0)"
        using gradient_local_is_gradient[of t "transform_point invpos4d p"] by simp
      with h that show False by blast
    qed
    then have nz: "\<forall>g\<in>set gradient. g \<noteq> (0, 0, 0)"
      by (auto simp: gradient_def xyz'_def)
    then have "\<forall>i\<in>set [0..<length gradient]. abs_sum (gradient ! i) \<noteq> 0"
      by (simp add: abs_sum_zero_iff)
    then have index: "filter (\<lambda>i. abs_sum (gradient ! i) = 0) [0..<length gradient] = []"
      by (simp add: filter_empty_conv)
    have rows: "mapM_e row_over_norm gradient = Inr (map (\<lambda>g. smul (1 / norm3 g) g) gradient)"
      by (rule mapM_e_Inr) (use nz in \<open>simp add: row_over_norm_def norm3_zero_iff\<close>)
    have res: "normal t xyz origin_arg = Inr ns"
      using close
      by (simp add: normal_def inv pts_def[symmetric] xyz'_def[symmetric] qs Let_def
          gradient_def[symmetric] index rows ns_def del: map_map)
    have len: "length ns = length pts"
      by (simp add: ns_def gradient_def xyz'_def)
    have each: "\<exists>g. is_quartic_gradient t (transform_point invpos4d (pts ! i)) g
                      \<and> 0 < dot (ns ! i) (transform_vector (pos4d t) g)
                      \<and> (orthonormal (lin (pos4d t)) \<longrightarrow> norm3 (ns ! i) = 1)"
      if i: "i < length ns" for i
    proof -
      define g where "g = gradient_local t (transform_point invpos4d (pts ! i))"
      have ip: "i < length pts" using i len by simp
      then have g0: "g \<noteq> (0, 0, 0)"
        unfolding g_def by (intro nzp) simp
      have nsi: "ns ! i = mat_vec (lin (pos4d t)) (smul (1 / norm3 g) g)"
        using ip by (simp add: ns_def gradient_def xyz'_def transform_vector_def g_def)
      have "is_quartic_gradient t (transform_point invpos4d (pts ! i)) g"
        unfolding g_def by (rule gradient_local_is_gradient)
      moreover have "0 < dot (ns ! i) (transform_vector (pos4d t) g)"
        unfolding nsi transform_vector_def by (rule outward_normal[OF det g0])
      moreover have "norm3 (ns ! i) = 1" if "orthonormal (lin (pos4d t))"
        unfolding nsi by (rule unit_normal[OF that g0])
      ultimately show ?thesis by blast
    qed
    show ?thesis
      using res len each by blast
  qed
  show ?thesis
    using on off unfolding pts_def by blast
qed


text \<open>
  Claim C1 as stated fails in two ways. On the torus with \<open>R = 3\<close>, \<open>r = 5\<close> the point
  \<open>(0, 4, 0)\<close> lies on the surface (the quartic is exactly zero) and \<open>R \<noteq> r\<close>, but the
  gradient of the quartic is zero there, so that no vector has a positive dot product
  with it; \<^verbatim>\<open>normal\<close> returns the default direction. The same happens at every point of
  the torus with \<open>R = 1\<close>, \<open>r = 0\<close>, for instance at \<open>(1, 0, 0)\<close>. And on the torus with
  \<open>R = 2\<close>, \<open>r = 1\<close> in a pose that scales by \<open>2\<close>, the surface point \<open>(6, 0, 0)\<close> gets the
  vector \<open>(2, 0, 0)\<close>, of length \<open>2\<close>: \<^verbatim>\<open>normal\<close> normalises before it applies the pose.
\<close>

theorem normal_apex_counterexample:
  "torus_R \<lparr>torus_R = 3, torus_r = 5, pos4d = identity_pose\<rparr>
     \<noteq> torus_r \<lparr>torus_R = 3, torus_r = 5, pos4d = identity_pose\<rparr>
   \<and> quartic \<lparr>torus_R = 3, torus_r = 5, pos4d = identity_pose\<rparr> (0, 4, 0) True = Inr 0
   \<and> is_quartic_gradient \<lparr>torus_R = 3, torus_r = 5, pos4d = identity_pose\<rparr> (0, 4, 0) (0, 0, 0)
   \<and> normal \<lparr>torus_R = 3, torus_r = 5, pos4d = identity_pose\<rparr> (Points [(0, 4, 0)]) None
       = Inr [(- 1, 0, 0)]
   \<and> \<not> 0 < dot (- 1, 0, 0) (transform_vector identity_pose (0, 0, 0))
   \<and> quartic \<lparr>torus_R = 1, torus_r = 0, pos4d = identity_pose\<rparr> (1, 0, 0) True = Inr 0
   \<and> is_quartic_gradient \<lparr>torus_R = 1, torus_r = 0, pos4d = identity_pose\<rparr> (1, 0, 0) (0, 0, 0)
   \<and> normal \<lparr>torus_R = 1, torus_r = 0, pos4d = identity_pose\<rparr> (Points [(1, 0, 0)]) None
       = Inr [(- 1, 0, 0)]
   \<and> quartic \<lparr>torus_R = 2, torus_r = 1,
                pos4d = \<lparr>lin = ((2, 0, 0), (0, 2, 0), (0, 0, 2)), trans = (0, 0, 0)\<rparr>\<rparr>
         (6, 0, 0) True = Inr 0
   \<and> normal \<lparr>torus_R = 2, torus_r = 1,
               pos4d = \<lparr>lin = ((2, 0, 0), (0, 2, 0), (0, 0, 2)), trans = (0, 0, 0)\<rparr>\<rparr>
         (Points [(6, 0, 0)]) None = Inr [(2, 0, 0)]
   \<and> norm3 (2, 0, 0) = 2"
proof -
  let ?a = "\<lparr>torus_R = 3, torus_r = 5, pos4d = identity_pose\<rparr>"
  let ?b = "\<lparr>torus_R = 1, torus_r = 0, pos4d = identity_pose\<rparr>"
  let ?z = "\<lparr>lin = ((2, 0, 0), (0, 2, 0), (0, 0, 2)), trans = (0, 0, 0)\<rparr> :: pose"
  let ?c = "\<lparr>torus_R = 2, torus_r = 1, pos4d = ?z\<rparr>"
  have n1: "norm3 (- 1, 0, 0) = 1"
    by (simp add: norm3_def)
  have n48: "norm3 (48, 0, 0) = 48"
    by (simp add: norm3_def)
  have n2: "norm3 (2, 0, 0) = 2"
    by (simp add: norm3_def)
  have ga: "is_quartic_gradient ?a (0, 4, 0) (0, 0, 0)"
    using gradient_local_is_gradient[of ?a "(0, 4, 0)"] by simp
  have gb: "is_quartic_gradient ?b (1, 0, 0) (0, 0, 0)"
    using gradient_local_is_gradient[of ?b "(1, 0, 0)"] by simp
  have ab: "torus_R ?a \<noteq> torus_r ?a
     \<and> quartic ?a (0, 4, 0) True = Inr 0
     \<and> normal ?a (Points [(0, 4, 0)]) None = Inr [(- 1, 0, 0)]
     \<and> \<not> 0 < dot (- 1, 0, 0) (transform_vector identity_pose (0, 0, 0))
     \<and> quartic ?b (1, 0, 0) True = Inr 0
     \<and> normal ?b (Points [(1, 0, 0)]) None = Inr [(- 1, 0, 0)]"
    by (simp add: normal_def identity_pose_simps quartic_def np_allclose_zero_def np_divide_def
        origin_default_def row_over_norm_def n1)
  have iz: "linalg_inv ?z = Inr \<lparr>lin = ((1 / 2, 0, 0), (0, 1 / 2, 0), (0, 0, 1 / 2)),
                                  trans = (0, 0, 0)\<rparr>"
    by (simp add: linalg_inv_def)
  have c: "quartic ?c (6, 0, 0) True = Inr 0
     \<and> normal ?c (Points [(6, 0, 0)]) None = Inr [(2, 0, 0)]"
    by (simp add: normal_def iz quartic_def transform_point_def transform_vector_def
        np_allclose_zero_def np_divide_def row_over_norm_def n48)
  show ?thesis
    using ga gb ab c n2 by blast
qed

text \<open>
  The amended claim at the torus with \<open>R = 2\<close>, \<open>r = 1\<close>: the point \<open>(3, 0, 0)\<close> is on the
  surface with gradient \<open>(48, 0, 0)\<close>, the point \<open>(5, 0, 0)\<close> is not on the surface.
\<close>

theorem normal_unit_outward_witness:
  "linalg_inv (pos4d \<lparr>torus_R = 2, torus_r = 1, pos4d = identity_pose\<rparr>) = Inr identity_pose
   \<and> orthonormal (lin identity_pose)
   \<and> np_allclose_zero [np_divide (quartic_local \<lparr>torus_R = 2, torus_r = 1, pos4d = identity_pose\<rparr>
                                      (3, 0, 0)) (2 ^ 4)]
   \<and> \<not> is_quartic_gradient \<lparr>torus_R = 2, torus_r = 1, pos4d = identity_pose\<rparr> (3, 0, 0) (0, 0, 0)
   \<and> is_quartic_gradient \<lparr>torus_R = 2, torus_r = 1, pos4d = identity_pose\<rparr> (3, 0, 0) (48, 0, 0)
   \<and> (\<exists>ns. normal \<lparr>torus_R = 2, torus_r = 1, pos4d = identity_pose\<rparr> (Point (3, 0, 0)) None
              = Inr ns
         \<and> length ns = 1 \<and> norm3 (ns ! 0) = 1 \<and> 0 < dot (ns ! 0) (48, 0, 0))
   \<and> \<not> np_allclose_zero [np_divide (quartic_local \<lparr>torus_R = 2, torus_r = 1, pos4d = identity_pose\<rparr>
                                      (5, 0, 0)) (2 ^ 4)]
   \<and> normal \<lparr>torus_R = 2, torus_r = 1, pos4d = identity_pose\<rparr> (Points [(5, 0, 0)]) None
       = Inl (ValueError ''Gradient vector field is only defined for points on torus surface.'')"
proof -
  let ?t = "\<lparr>torus_R = 2, torus_r = 1, pos4d = identity_pose\<rparr>"
  have inv: "linalg_inv (pos4d ?t) = Inr identity_pose"
    by (simp add: identity_pose_simps)
  have orth: "orthonormal (lin identity_pose)"
    by (simp add: orthonormal_def identity_pose_def identity3_def)
  have on: "np_allclose_zero [np_divide (quartic_local ?t (3, 0, 0)) (2 ^ 4)]"
    by (simp add: np_allclose_zero_def np_divide_def)
  have off: "\<not> np_allclose_zero [np_divide (quartic_local ?t (5, 0, 0)) (2 ^ 4)]"
    by (simp add: np_allclose_zero_def np_divide_def)
  have g: "is_quartic_gradient ?t (3, 0, 0) (48, 0, 0)"
    using gradient_local_is_gradient[of ?t "(3, 0, 0)"] by simp
  have uniq: "g' = (48, 0, 0)" if "is_quartic_gradient ?t (3, 0, 0) g'" for g'
    using quartic_gradient_unique[OF that] by simp
  have g0: "\<not> is_quartic_gradient ?t (3, 0, 0) (0, 0, 0)"
    using uniq[of "(0, 0, 0)"] by auto
  have "\<exists>ns. normal ?t (Point (3, 0, 0)) None = Inr ns \<and> length ns = 1
         \<and> (\<exists>g'. is_quartic_gradient ?t (3, 0, 0) g' \<and> 0 < dot (ns ! 0) g'
               \<and> norm3 (ns ! 0) = 1)"
  proof -
    have "\<exists>ns. normal ?t (Point (3, 0, 0)) None = Inr ns \<and> length ns = 1
         \<and> (\<forall>i<length ns. \<exists>g'. is_quartic_gradient ?t ([(3, 0, 0)] ! i) g'
               \<and> 0 < dot (ns ! i) g' \<and> norm3 (ns ! i) = 1)"
      using normal_unit_outward[OF inv, of "Point (3, 0, 0)" None, THEN conjunct1] orth on g0
      by (simp add: identity_pose_simps)
    then obtain ns where ns: "normal ?t (Point (3, 0, 0)) None = Inr ns" "length ns = 1"
      "\<forall>i<length ns. \<exists>g'. is_quartic_gradient ?t ([(3, 0, 0)] ! i) g'
               \<and> 0 < dot (ns ! i) g' \<and> norm3 (ns ! i) = 1"
      by blast
    from ns(2,3) have "\<exists>g'. is_quartic_gradient ?t ([(3, 0, 0)] ! 0) g'
               \<and> 0 < dot (ns ! 0) g' \<and> norm3 (ns ! 0) = 1"
      by simp
    then show ?thesis
      using ns(1,2) by auto
  qed
  then have a: "\<exists>ns. normal ?t (Point (3, 0, 0)) None = Inr ns
         \<and> length ns = 1 \<and> norm3 (ns ! 0) = 1 \<and> 0 < dot (ns ! 0) (48, 0, 0)"
    using uniq by blast
  have b: "normal ?t (Points [(5, 0, 0)]) None
       = Inl (ValueError ''Gradient vector field is only defined for points on torus surface.'')"
    using normal_unit_outward[OF inv, of "Points [(5, 0, 0)]" None, THEN conjunct2] off
    by (simp add: identity_pose_simps)
  show ?thesis
    by (intro conjI) (rule inv orth on g0 g a off b)+
qed


subsection \<open>The designed torus\<close>

lemma sign_or_1_cases: "sign_or_1 alpha = (if alpha < 0 then - 1 else 1)"
  by (simp add: sign_or_1_def sgn_real_def)

lemma tilted_gamma_form:
  assumes "tilted_gamma f alpha beta = Inr g"
  shows "\<exists>r HF. tilted_r f alpha = Inr r \<and> tilted_HF f alpha beta = Inr HF \<and> r \<noteq> 0
           \<and> - 1 \<le> HF / (2 * r) \<and> HF / (2 * r) \<le> 1
           \<and> g = arccos (HF / (2 * r)) * sign_or_1 alpha"
  using assms
  by (auto simp: tilted_gamma_def bind_e_def finite_or_stop_def np_divide_def np_arccos_def
      split: sum.splits option.splits if_splits)

text \<open>
  Claim C8, as amended. When \<^verbatim>\<open>design_tilted_torus(f, alpha, beta)\<close> returns \<open>(R, r, pose)\<close>,
  \<open>cos alpha\<close> is not zero and \<open>r = f / (2 cos alpha)\<close>. The angle \<open>gamma\<close> it derives is
  \<open>arccos (HF / (2 r))\<close> times \<open>-1\<close> for a negative \<open>alpha\<close> and times \<open>+1\<close> otherwise
  (\<open>alpha = 0\<close> included); so \<open>gamma\<close> never has the opposite sign, and it has exactly that
  sign unless it is zero.
\<close>

theorem design_tilted_torus_radius_and_gamma:
  "(design_tilted_torus f alpha beta = Inr (R, r, P) \<longrightarrow>
      cos alpha \<noteq> 0 \<and> r = f / (2 * cos alpha)
      \<and> (\<exists>g. tilted_gamma f alpha beta = Inr g))
   \<and> (tilted_gamma f alpha beta = Inr g \<longrightarrow>
      (\<exists>r HF. tilted_r f alpha = Inr r \<and> tilted_HF f alpha beta = Inr HF
         \<and> g = arccos (HF / (2 * r)) * (if alpha < 0 then - 1 else 1))
      \<and> 0 \<le> g * (if alpha < 0 then - 1 else 1)
      \<and> (g \<noteq> 0 \<longrightarrow> sgn g = (if alpha < 0 then - 1 else 1)))"
proof (intro conjI impI)
  assume d: "design_tilted_torus f alpha beta = Inr (R, r, P)"
  then have r: "tilted_r f alpha = Inr r"
    by (auto simp: design_tilted_torus_def bind_e_def Let_def split: sum.splits)
  then show "cos alpha \<noteq> 0" and "r = f / (2 * cos alpha)"
    by (auto simp: tilted_r_def finite_or_stop_def np_divide_def split: if_splits)
  from d show "\<exists>g. tilted_gamma f alpha beta = Inr g"
    by (auto simp: design_tilted_torus_def bind_e_def split: sum.splits)
next
  assume g: "tilted_gamma f alpha beta = Inr g"
  then obtain r HF where f: "tilted_r f alpha = Inr r" "tilted_HF f alpha beta = Inr HF"
    "- 1 \<le> HF / (2 * r)" "HF / (2 * r) \<le> 1" "g = arccos (HF / (2 * r)) * sign_or_1 alpha"
    using tilted_gamma_form by blast
  have a: "0 \<le> arccos (HF / (2 * r))"
    using f(3,4) by (rule arccos_lbound)
  show "\<exists>r HF. tilted_r f alpha = Inr r \<and> tilted_HF f alpha beta = Inr HF
         \<and> g = arccos (HF / (2 * r)) * (if alpha < 0 then - 1 else 1)"
    using f by (auto simp: sign_or_1_cases)
  show "0 \<le> g * (if alpha < 0 then - 1 else 1)"
    using a f(5) by (simp add: sign_or_1_cases)
  show "sgn g = (if alpha < 0 then - 1 else 1)" if "g \<noteq> 0"
  proof -
    have "0 < arccos (HF / (2 * r))"
      using a that f(5) by (cases "arccos (HF / (2 * r)) = 0") simp_all
    then show ?thesis
      using f(5) by (simp add: sign_or_1_cases sgn_real_def)
  qed
qed

text \<open>
  Claim C8 as stated fails where the inverse cosine is zero: for \<open>f = 1\<close>, \<open>alpha = 0\<close>,
  \<open>beta = pi / 2\<close> the angle \<open>gamma\<close> is \<open>0\<close>, whose sign is \<open>0\<close> and not the \<open>+1\<close> that stands
  for the sign of \<open>alpha\<close>.
\<close>

theorem tilted_gamma_zero_counterexample:
  "tilted_gamma 1 0 (pi / 2) = Inr 0 \<and> sgn (0::real) \<noteq> sign_or_1 0"
  by (simp add: tilted_gamma_def tilted_HF_def tilted_CatH_def tilted_r_def finite_or_stop_def
      np_divide_def np_sqrt_def np_arccos_def sign_or_1_def)

text \<open>
  The amended claim for \<open>f = 2\<close>, \<open>alpha = beta = 0\<close>: the design is the torus with
  \<open>R = r = 1\<close> in the identity pose, and \<open>gamma = pi / 2\<close>.
\<close>

theorem design_tilted_torus_witness:
  "design_tilted_torus 2 0 0 = Inr (1, 1, identity_pose)
   \<and> cos (0::real) \<noteq> 0 \<and> (1::real) = 2 / (2 * cos 0)
   \<and> tilted_gamma 2 0 0 = Inr (pi / 2)
   \<and> pi / 2 \<noteq> 0 \<and> sgn (pi / 2) = (if (0::real) < 0 then - 1 else 1)"
proof -
  have g: "tilted_gamma 2 0 0 = Inr (pi / 2)"
    by (simp add: tilted_gamma_def tilted_HF_def tilted_CatH_def tilted_r_def finite_or_stop_def
        np_divide_def np_sqrt_def np_arccos_def sign_or_1_def)
  have d: "design_tilted_torus 2 0 0 = Inr (1, 1, identity_pose)"
    by (simp add: design_tilted_torus_def g tilted_r_def finite_or_stop_def np_divide_def
        axangle2mat_def compose_def identity_pose_def identity3_def)
  have nz: "pi / 2 \<noteq> 0" by simp
  note th = design_tilted_torus_radius_and_gamma[of 2 0 0 1 1 identity_pose "pi / 2"]
  from th d have a: "cos (0::real) \<noteq> 0 \<and> (1::real) = 2 / (2 * cos 0)" by blast
  from th g nz have b: "sgn (pi / 2) = (if (0::real) < 0 then - 1 else 1)" by blast
  show ?thesis
    using d g nz a b by blast
qed


subsection \<open>Arc packing\<close>

lemma mod_2pi_range: "0 \<le> mod_2pi x \<and> mod_2pi x < 2 * pi"
proof -
  define k where "k = \<lfloor>x / (2 * pi)\<rfloor>"
  have "of_int k \<le> x / (2 * pi)" and "x / (2 * pi) < of_int k + 1"
    unfolding k_def by linarith+
  then have "2 * pi * of_int k \<le> x" and "x < 2 * pi * (of_int k + 1)"
    by (simp_all add: field_simps)
  then show ?thesis
    unfolding mod_2pi_def k_def[symmetric] by (simp add: algebra_simps)
qed

lemma mod_2pi_shift: "mod_2pi (x + 2 * pi * of_int k) = mod_2pi x"
proof -
  have "(x + 2 * pi * of_int k) / (2 * pi) = x / (2 * pi) + of_int k"
    by (simp add: field_simps)
  then have "\<lfloor>(x + 2 * pi * of_int k) / (2 * pi)\<rfloor> = \<lfloor>x / (2 * pi)\<rfloor> + k"
    by simp
  then show ?thesis
    by (simp add: mod_2pi_def algebra_simps)
qed

lemma mod_2pi_diff: "mod_2pi (mod_2pi x - y) = mod_2pi (x - y)"
proof -
  have "mod_2pi x - y = (x - y) + 2 * pi * of_int (- \<lfloor>x / (2 * pi)\<rfloor>)"
    by (simp add: mod_2pi_def)
  then show ?thesis
    by (simp only: mod_2pi_shift)
qed

lemma mod_2pi_le:
  assumes "0 \<le> x"
  shows "mod_2pi x \<le> x"
proof -
  have "0 \<le> x / (2 * pi)" using assms by simp
  then have "0 \<le> \<lfloor>x / (2 * pi)\<rfloor>" by simp
  then have "0 \<le> 2 * pi * of_int \<lfloor>x / (2 * pi)\<rfloor>" by simp
  then show ?thesis unfolding mod_2pi_def by linarith
qed

lemma mod_2pi_id:
  assumes "0 \<le> x" and "x < 2 * pi"
  shows "mod_2pi x = x"
proof -
  have "0 \<le> x / (2 * pi)" and "x / (2 * pi) < 1"
    using assms by simp_all
  then have "\<lfloor>x / (2 * pi)\<rfloor> = 0" by linarith
  then show ?thesis by (simp add: mod_2pi_def)
qed

lemma anglediff_range: "0 \<le> anglediff ph \<and> anglediff ph \<le> 2 * pi"
  using mod_2pi_range[of "snd ph - fst ph"] by (simp add: anglediff_def Let_def)

lemma arc_centre_bounds:
  fixes D d rho k :: real and m :: int
  assumes D: "0 \<le> D" "D \<le> 2 * pi"
    and d: "d \<noteq> 0" and rho: "rho \<noteq> 0"
    and m: "m = \<lfloor>(rho - d / 2) * D / d\<rfloor>" "1 \<le> m"
    and k: "0 \<le> k" "k \<le> of_int m - 1"
    and ea: "ea = d / (2 * pi * rho)"
    and db: "db = (D - of_int m * ea) / (of_int m + 1)"
  shows "0 \<le> db + 0.5 * ea + k * (db + ea) \<and> db + 0.5 * ea + k * (db + ea) \<le> D"
proof -
  define q where "q = rho / d"
  have x: "(rho - d / 2) * D / d = (q - 1 / 2) * D"
    using d by (simp add: q_def field_simps)
  have mle: "of_int m \<le> (q - 1 / 2) * D"
    using m(1) x by simp
  have m1: "(1::real) \<le> of_int m" using m(2) by simp
  have prod: "1 \<le> (q - 1 / 2) * D" using mle m1 by linarith
  have qh: "1 / 2 < q"
  proof (rule ccontr)
    assume "\<not> 1 / 2 < q"
    then have "(q - 1 / 2) * D \<le> 0"
      using D(1) by (simp add: mult_nonpos_nonneg)
    with prod show False by linarith
  qed
  have Dpos: "0 < D"
  proof (rule ccontr)
    assume "\<not> 0 < D"
    then have "D = 0" using D(1) by simp
    with prod show False by simp
  qed
  have qpos: "0 < q" using qh by linarith
  have ea_q: "ea = 1 / (2 * pi * q)"
    using d rho by (simp add: ea q_def field_simps)
  have ea_pos: "0 < ea"
    unfolding ea_q using qpos by simp
  have "(q - 1 / 2) * ea = (q - 1 / 2) / q * (1 / (2 * pi))"
    unfolding ea_q by simp
  also have "\<dots> < 1 * (1 / (2 * pi))"
  proof (rule mult_strict_right_mono)
    show "(q - 1 / 2) / q < 1" using qpos by (simp add: field_simps)
    show "0 < 1 / (2 * pi)" by simp
  qed
  also have "\<dots> < 1"
    using pi_ge_two by (simp add: field_simps)
  finally have frac: "(q - 1 / 2) * ea < 1" .
  have "of_int m * ea \<le> ((q - 1 / 2) * D) * ea"
    using mle ea_pos by (simp add: mult_right_mono)
  also have "\<dots> = ((q - 1 / 2) * ea) * D" by (simp add: algebra_simps)
  also have "\<dots> < 1 * D"
    using frac Dpos by (rule mult_strict_right_mono)
  finally have mea: "of_int m * ea < D" by simp
  have mp: "(0::real) < of_int m + 1" using m1 by linarith
  have db_pos: "0 < db"
    unfolding db using mea mp by simp
  have total: "(of_int m + 1) * db = D - of_int m * ea"
    unfolding db using mp by simp
  have sum_pos: "0 \<le> db + ea" using db_pos ea_pos by linarith
  have lower: "0 \<le> db + 0.5 * ea + k * (db + ea)"
    using db_pos ea_pos k(1) sum_pos by (simp add: add_nonneg_nonneg)
  have "k * (db + ea) \<le> (of_int m - 1) * (db + ea)"
    using k(2) sum_pos by (rule mult_right_mono)
  then have "db + 0.5 * ea + k * (db + ea) \<le> db + 0.5 * ea + (of_int m - 1) * (db + ea)"
    by linarith
  also have "\<dots> = (of_int m + 1) * db + of_int m * ea - db - 0.5 * ea"
    by (simp add: algebra_simps)
  also have "\<dots> = D - db - 0.5 * ea"
    unfolding total by simp
  also have "\<dots> \<le> D"
    using db_pos ea_pos by simp
  finally show ?thesis using lower by simp
qed


lemma mapM_e_const_Inl:
  assumes "xs \<noteq> []"
  shows "mapM_e (\<lambda>x. Inl e) xs = Inl e"
  using assms by (cases xs) simp_all

lemma arange_mem:
  assumes "k \<in> set (arange 0 (of_int m))"
  shows "0 \<le> k \<and> k \<le> of_int m - 1"
proof -
  from assms obtain i where i: "i < nat m" and k: "k = real i"
    by (auto simp: arange_def)
  have "real i \<le> of_int m - 1" using i by linarith
  then show ?thesis using k by simp
qed

lemma kind_divide_numpy: "kind_divide NpFloat64 a b = Inr (np_divide a b)"
  by (simp add: kind_divide_def np_divide_def)

lemma kind_divide_Some:
  assumes "kind_divide k a b = Inr (Some v)"
  shows "b \<noteq> 0 \<and> v = a / b"
  using assms by (auto simp: kind_divide_def split: if_splits scalar_kind.splits)

text \<open>
  The centre angles of \<^verbatim>\<open>distribute_elements_on_arc(radius)\<close>, whenever the call
  returns, lie in \<open>[0, 2 pi)\<close> and inside the arc that runs counterclockwise from
  \<open>phi[0]\<close> to \<open>phi[1]\<close>; this holds for a radius of either kind.
\<close>

lemma arc_centres_within_bounds:
  assumes res: "distribute_elements_on_arc k p radius' = Inr angles" and a: "a \<in> set angles"
  shows "0 \<le> a \<and> a < 2 * pi \<and> in_arc (phi p) a"
proof -
  define D where "D = anglediff (phi p)"
  define d where "d = d_element p"
  define m where "m = \<lfloor>(radius' - d / 2) * D / d\<rfloor>"
  have Dr: "0 \<le> D" "D \<le> 2 * pi"
    using anglediff_range[of "phi p"] by (simp_all add: D_def)
  have d0: "d \<noteq> 0"
    using res by (auto simp: distribute_elements_on_arc_def max_elements_on_arc_def d_def
        split: if_splits scalar_kind.splits)
  then have n: "max_elements_on_arc k p (radius' - d_element p / 2) = Inr (of_int m)"
    by (simp add: max_elements_on_arc_def m_def d_def D_def)
  from res obtain ea_opt where e1: "kind_divide k d (2 * pi * radius') = Inr ea_opt"
    unfolding distribute_elements_on_arc_def n d_def
    by (cases "kind_divide k (d_element p) (2 * pi * radius')") simp_all
  from res obtain db_opt where e2:
    "(case ea_opt of None \<Rightarrow> Inr None
      | Some ea \<Rightarrow> kind_divide k (D - of_int m * ea) (of_int m + 1)) = Inr db_opt"
    unfolding distribute_elements_on_arc_def n e1[unfolded d_def] D_def
    by (cases "case ea_opt of None \<Rightarrow> Inr None
      | Some ea \<Rightarrow> kind_divide k (anglediff (phi p) - of_int m * ea) (of_int m + 1)") simp_all
  define F where "F = (\<lambda>i. case (db_opt, ea_opt) of
                    (Some db, Some ea) \<Rightarrow>
                      Inr (mod_2pi (fst (phi p) + (db + 0.5 * ea + i * (db + ea))))
                  | _ \<Rightarrow> (Inl NonFinite :: error + real))"
  have run: "mapM_e F (arange 0 (of_int m)) = Inr angles"
    using res e2[unfolded D_def]
    unfolding distribute_elements_on_arc_def n e1[unfolded d_def] F_def
    by simp
  have ne: "arange 0 (of_int m) \<noteq> []"
    using run a by auto
  then have m1: "1 \<le> m"
    by (auto simp: arange_def)
  obtain db ea where some: "db_opt = Some db" "ea_opt = Some ea"
  proof (cases "\<exists>db ea. db_opt = Some db \<and> ea_opt = Some ea")
    case True
    then show ?thesis using that by blast
  next
    case False
    then have "F = (\<lambda>i. Inl NonFinite)"
      by (auto simp: F_def fun_eq_iff split: option.splits)
    then have "mapM_e F (arange 0 (of_int m)) = Inl NonFinite"
      using ne by (simp add: mapM_e_const_Inl)
    with run show ?thesis by simp
  qed
  have "2 * pi * radius' \<noteq> 0 \<and> ea = d / (2 * pi * radius')"
    using e1 some(2) by (intro kind_divide_Some) simp
  then have rho: "radius' \<noteq> 0" and ea: "ea = d / (2 * pi * radius')"
    by simp_all
  have "of_int m + 1 \<noteq> (0::real) \<and> db = (D - of_int m * ea) / (of_int m + 1)"
    using e2 some by (intro kind_divide_Some[of k]) simp
  then have db: "db = (D - of_int m * ea) / (of_int m + 1)"
    by simp
  define G where "G = (\<lambda>i. mod_2pi (fst (phi p) + (db + 0.5 * ea + i * (db + ea))))"
  have "F = (\<lambda>i. Inr (G i))"
    by (simp add: F_def some G_def)
  then have "mapM_e F (arange 0 (of_int m)) = Inr (map G (arange 0 (of_int m)))"
    by (simp add: mapM_e_Inr)
  with run have "angles = map G (arange 0 (of_int m))" by simp
  with a obtain i where i: "i \<in> set (arange 0 (of_int m))" and ai: "a = G i"
    by auto
  have ib: "0 \<le> i" "i \<le> of_int m - 1"
    using arange_mem[OF i] by simp_all
  define c where "c = db + 0.5 * ea + i * (db + ea)"
  have cb: "0 \<le> c \<and> c \<le> D"
    unfolding c_def
    by (rule arc_centre_bounds[OF Dr d0 rho m_def m1 ib ea db])
  have ac: "a = mod_2pi (fst (phi p) + c)"
    by (simp add: ai G_def c_def)
  show ?thesis
  proof (intro conjI)
    show "0 \<le> a" "a < 2 * pi"
      using mod_2pi_range[of "fst (phi p) + c"] ac by simp_all
    have "mod_2pi (a - fst (phi p)) = mod_2pi (fst (phi p) + c - fst (phi p))"
      unfolding ac by (rule mod_2pi_diff)
    also have "\<dots> = mod_2pi c" by simp
    also have "\<dots> \<le> c" using cb by (simp add: mod_2pi_le)
    finally show "in_arc (phi p) a"
      using cb by (simp add: in_arc_def D_def)
  qed
qed

text \<open>
  An arc too narrow for one element, \<open>radius * span < d_element\<close> with a positive element
  size: for a numpy scalar (the radii that \<^verbatim>\<open>calculate_elempos\<close> passes) the result is
  empty. For a Python float the quotients of lines 575 and 577 raise on a zero divisor,
  which happens at radius \<open>0\<close> and when the floor of line 550 is \<open>-1\<close>.
\<close>

lemma arc_too_narrow:
  assumes "0 < d_element p" and "radius' * anglediff (phi p) < d_element p"
  shows "distribute_elements_on_arc NpFloat64 p radius' = Inr []"
    and "distribute_elements_on_arc PyFloat p radius' =
           (if radius' = 0
               \<or> \<lfloor>(radius' - d_element p / 2) * anglediff (phi p) / d_element p\<rfloor> = - 1
            then Inl ZeroDivisionError else Inr [])"
proof -
  define D where "D = anglediff (phi p)"
  define d where "d = d_element p"
  define m where "m = \<lfloor>(radius' - d / 2) * D / d\<rfloor>"
  have Dr: "0 \<le> D"
    using anglediff_range[of "phi p"] by (simp add: D_def)
  have dpos: "0 < d" and lt: "radius' * D < d"
    using assms by (simp_all add: d_def D_def)
  have "(radius' - d / 2) * D / d = radius' * D / d - D / 2"
    using dpos by (simp add: field_simps)
  moreover have "radius' * D / d < 1"
    using dpos lt by (simp add: field_simps)
  ultimately have "(radius' - d / 2) * D / d < 1"
    using Dr by linarith
  then have "m \<le> 0"
    unfolding m_def by linarith
  then have empty: "arange 0 (of_int m) = []"
    by (simp add: arange_def)
  have n: "max_elements_on_arc k p (radius' - d_element p / 2) = Inr (of_int m)" for k
    using dpos by (simp add: max_elements_on_arc_def m_def d_def D_def)
  show "distribute_elements_on_arc NpFloat64 p radius' = Inr []"
    by (simp add: distribute_elements_on_arc_def n kind_divide_numpy empty
        split: option.splits)
  have m1: "of_int m + 1 = (0::real) \<longleftrightarrow> m = - 1"
    by linarith
  have "distribute_elements_on_arc PyFloat p radius' =
           (if radius' = 0 \<or> m = - 1 then Inl ZeroDivisionError else Inr [])"
    unfolding distribute_elements_on_arc_def n
    by (simp add: kind_divide_def empty m1)
  then show "distribute_elements_on_arc PyFloat p radius' =
           (if radius' = 0
               \<or> \<lfloor>(radius' - d_element p / 2) * anglediff (phi p) / d_element p\<rfloor> = - 1
            then Inl ZeroDivisionError else Inr [])"
    by (simp only: m_def d_def D_def)
qed

text \<open>
  Claim C3 asks for an empty result whenever \<open>radius * span < d_element\<close>. For the
  grating array with \<open>d_element = 1\<close> and \<open>phi = [0, 1]\<close>, the call
  \<^verbatim>\<open>distribute_elements_on_arc(0.0)\<close> with the Python float \<open>0.0\<close> has \<open>0 * 1 < 1\<close> and ends
  with \<^verbatim>\<open>ZeroDivisionError\<close> in line 575, where the numpy scalar of the same value gives
  the empty result; the call \<^verbatim>\<open>distribute_elements_on_arc(0.1)\<close> has \<open>n = -1\<close> and ends the
  same way in line 577.
\<close>

theorem distribute_elements_on_arc_ZeroDivisionError:
  "GratingArrayStructure_init \<lparr>torus_R = 1, torus_r = 1, pos4d = identity_pose\<rparr> 1 (0, 1)
       (0, 2) (Some (0, 1))
     = Inr \<lparr>rowland = \<lparr>torus_R = 1, torus_r = 1, pos4d = identity_pose\<rparr>, d_element = 1,
            x_range = (0, 1), radius = (0, 2), phi = (0, 1)\<rparr>
   \<and> 0 * anglediff (0, 1) < (1::real)
   \<and> distribute_elements_on_arc PyFloat
        \<lparr>rowland = \<lparr>torus_R = 1, torus_r = 1, pos4d = identity_pose\<rparr>, d_element = 1,
         x_range = (0, 1), radius = (0, 2), phi = (0, 1)\<rparr> 0 = Inl ZeroDivisionError
   \<and> distribute_elements_on_arc NpFloat64
        \<lparr>rowland = \<lparr>torus_R = 1, torus_r = 1, pos4d = identity_pose\<rparr>, d_element = 1,
         x_range = (0, 1), radius = (0, 2), phi = (0, 1)\<rparr> 0 = Inr []
   \<and> (1 / 10) * anglediff (0, 1) < (1::real)
   \<and> distribute_elements_on_arc PyFloat
        \<lparr>rowland = \<lparr>torus_R = 1, torus_r = 1, pos4d = identity_pose\<rparr>, d_element = 1,
         x_range = (0, 1), radius = (0, 2), phi = (0, 1)\<rparr> (1 / 10) = Inl ZeroDivisionError"
proof -
  let ?g = "\<lparr>rowland = \<lparr>torus_R = 1, torus_r = 1, pos4d = identity_pose\<rparr>, d_element = 1,
             x_range = (0, 1), radius = (0, 2), phi = (0::real, 1::real)\<rparr>"
  have init: "GratingArrayStructure_init \<lparr>torus_R = 1, torus_r = 1, pos4d = identity_pose\<rparr>
       1 (0, 1) (0, 2) (Some (0, 1)) = Inr ?g"
    by (simp add: GratingArrayStructure_init_def placer_init_def Let_def)
  have two_pi: "(1::real) < 2 * pi"
    using pi_ge_two by simp
  have ad: "anglediff (0, 1) = 1"
    using two_pi by (simp add: anglediff_def mod_2pi_id)
  have z: "distribute_elements_on_arc PyFloat ?g 0 = Inl ZeroDivisionError"
    by (simp add: distribute_elements_on_arc_def max_elements_on_arc_def kind_divide_def)
  have nz: "distribute_elements_on_arc NpFloat64 ?g 0 = Inr []"
    by (rule arc_too_narrow(1)) (simp_all add: ad)
  have fl: "\<lfloor>- (2 / 5 :: real)\<rfloor> = - 1" by linarith
  have t: "distribute_elements_on_arc PyFloat ?g (1 / 10) = Inl ZeroDivisionError"
    by (simp add: distribute_elements_on_arc_def max_elements_on_arc_def kind_divide_def ad fl)
  show ?thesis
    using init z nz t by (simp add: ad)
qed


subsection \<open>Failure translation in the placers\<close>

lemma unit_torus_far_positive:
  assumes "4 < x\<^sup>2"
  shows "0 < quartic_local \<lparr>torus_R = 1, torus_r = 1, pos4d = P\<rparr> (x, rho * cos a, rho * sin a)"
proof -
  define X where "X = x\<^sup>2"
  define Q where "Q = rho\<^sup>2"
  define s where "s = (sin a)\<^sup>2"
  have Q0: "0 \<le> Q" by (simp add: Q_def)
  have s1: "s \<le> 1"
  proof -
    have "s = 1 - (cos a)\<^sup>2" by (simp add: s_def sin_squared_eq)
    then show ?thesis by simp
  qed
  have yz: "(rho * cos a)\<^sup>2 + (rho * sin a)\<^sup>2 = Q"
  proof -
    have "(rho * cos a)\<^sup>2 + (rho * sin a)\<^sup>2 = rho\<^sup>2 * ((cos a)\<^sup>2 + (sin a)\<^sup>2)"
      by (simp only: power_mult_distrib distrib_left)
    then show ?thesis by (simp add: Q_def)
  qed
  have z: "(rho * sin a)\<^sup>2 = Q * s"
    by (simp add: power_mult_distrib Q_def s_def)
  have q: "quartic_local \<lparr>torus_R = 1, torus_r = 1, pos4d = P\<rparr> (x, rho * cos a, rho * sin a)
        = (X + Q)\<^sup>2 - 4 * (X + Q * s)"
  proof -
    have e: "x\<^sup>2 + (rho * cos a)\<^sup>2 + (rho * sin a)\<^sup>2 = X + Q"
      using yz by (simp add: X_def)
    have "quartic_local \<lparr>torus_R = 1, torus_r = 1, pos4d = P\<rparr> (x, rho * cos a, rho * sin a)
        = (x\<^sup>2 + (rho * cos a)\<^sup>2 + (rho * sin a)\<^sup>2)\<^sup>2 - 4 * (x\<^sup>2 + (rho * sin a)\<^sup>2)"
      by simp
    also have "\<dots> = (X + Q)\<^sup>2 - 4 * (x\<^sup>2 + (rho * sin a)\<^sup>2)"
      by (simp only: e)
    also have "\<dots> = (X + Q)\<^sup>2 - 4 * (X + Q * s)"
      by (simp only: z X_def)
    finally show ?thesis .
  qed
  have "Q * s \<le> Q * 1"
    using Q0 s1 by (rule mult_left_mono[rotated])
  then have "(X + Q)\<^sup>2 - 4 * (X + Q * s) \<ge> (X + Q)\<^sup>2 - 4 * (X + Q)"
    by simp
  moreover have "(X + Q)\<^sup>2 - 4 * (X + Q) = (X + Q) * (X + Q - 4)"
    by (simp add: power2_eq_square algebra_simps)
  moreover have "0 < (X + Q) * (X + Q - 4)"
    using assms Q0 by (simp add: X_def[symmetric])
  ultimately show ?thesis
    unfolding q by linarith
qed

lemma unit_torus_no_intersection:
  assumes "4 < a\<^sup>2" and "4 < b\<^sup>2"
  shows "xyz_from_radiusangle iterate \<lparr>torus_R = 1, torus_r = 1, pos4d = P\<rparr> rho ang (a, b)
           = Inl (ValueError sign_msg)"
proof -
  let ?t = "\<lparr>torus_R = 1, torus_r = 1, pos4d = P\<rparr>"
  have s: "quartic_slice ?t None (Some (rho * cos ang)) (Some (rho * sin ang)) False v
         = Inr (quartic_local ?t (v, rho * cos ang, rho * sin ang))" for v
    by (simp add: quartic_slice_def quartic_def free_index_def coord_or_zero_def)
  have "0 < quartic_local ?t (a, rho * cos ang, rho * sin ang)
          * quartic_local ?t (b, rho * cos ang, rho * sin ang)"
    using unit_torus_far_positive[OF assms(1)] unit_torus_far_positive[OF assms(2)]
    by (rule mult_pos_pos)
  then show ?thesis
    by (simp add: xyz_from_radiusangle_def solve_quartic_def brentq_def s
        del: quartic_local.simps)
qed


text \<open>
  Claim C4 asks both placers to turn a root-finding failure into an
  \<^verbatim>\<open>ElementPlacementError\<close> that carries \<open>x_range\<close>. On the torus with \<open>R = r = 1\<close> and
  \<open>x_range = [10, 20]\<close>, which lies outside the torus, the grating placer (a well-formed
  one, with \<open>radius = [2, 3]\<close> and \<open>phi = [0, 1]\<close>) ends with the unchanged \<^verbatim>\<open>ValueError\<close>
  of the root finder: its \<^verbatim>\<open>calculate_elempos\<close> has no handler. The linear placer on the
  same torus and range ends with \<open>ElementPlacementError (10, 20)\<close>.
\<close>

theorem grating_calculate_elempos_raw_ValueError:
  "GratingArrayStructure_init \<lparr>torus_R = 1, torus_r = 1, pos4d = identity_pose\<rparr> 1 (10, 20)
       (2, 3) (Some (0, 1))
     = Inr \<lparr>rowland = \<lparr>torus_R = 1, torus_r = 1, pos4d = identity_pose\<rparr>, d_element = 1,
            x_range = (10, 20), radius = (2, 3), phi = (0, 1)\<rparr>
   \<and> GratingArrayStructure_calculate_elempos iterate ex2vec_fix
        \<lparr>rowland = \<lparr>torus_R = 1, torus_r = 1, pos4d = identity_pose\<rparr>, d_element = 1,
         x_range = (10, 20), radius = (2, 3), phi = (0, 1)\<rparr>
     = Inl (ValueError sign_msg)
   \<and> LinearCCDArray_init \<lparr>torus_R = 1, torus_r = 1, pos4d = identity_pose\<rparr> 1 (10, 20)
       (2, 4) 0
     = Inr \<lparr>rowland = \<lparr>torus_R = 1, torus_r = 1, pos4d = identity_pose\<rparr>, d_element = 1,
            x_range = (10, 20), radius = (2, 4), phi = 0\<rparr>
   \<and> LinearCCDArray_calculate_elempos iterate
        \<lparr>rowland = \<lparr>torus_R = 1, torus_r = 1, pos4d = identity_pose\<rparr>, d_element = 1,
         x_range = (10, 20), radius = (2, 4), phi = 0\<rparr>
     = Inl (ElementPlacementError (10, 20))"
proof -
  let ?t = "\<lparr>torus_R = 1, torus_r = 1, pos4d = identity_pose\<rparr>"
  let ?g = "\<lparr>rowland = ?t, d_element = 1, x_range = (10, 20), radius = (2, 3),
             phi = (0::real, 1::real)\<rparr>"
  let ?l = "\<lparr>rowland = ?t, d_element = 1, x_range = (10, 20), radius = (2, 4),
             phi = (0::real)\<rparr>"
  have no: "xyz_from_radiusangle iterate ?t rho ang (10, 20) = Inl (ValueError sign_msg)"
    for rho ang
    by (rule unit_torus_no_intersection) simp_all
  have ginit: "GratingArrayStructure_init ?t 1 (10, 20) (2, 3) (Some (0, 1)) = Inr ?g"
    by (simp add: GratingArrayStructure_init_def placer_init_def)
  have linit: "LinearCCDArray_init ?t 1 (10, 20) (2, 4) 0 = Inr ?l"
    by (simp add: LinearCCDArray_init_def placer_init_def)
  have gradii: "distribute_elements_on_radius ?g = Inr [5 / 2]"
    by (simp add: distribute_elements_on_radius_def max_elements_on_radius_def arange_def)
  have two_pi: "(1::real) < 2 * pi"
    using pi_ge_two by simp
  have ad: "anglediff (0, 1) = 1"
    using two_pi by (simp add: anglediff_def mod_2pi_id)
  have "\<exists>a0 a1. distribute_elements_on_arc NpFloat64 ?g (5 / 2) = Inr [a0, a1]"
    by (simp add: distribute_elements_on_arc_def max_elements_on_arc_def ad kind_divide_def
        arange_def upt_conv_Cons)
  then obtain a0 a1 where
    angles: "distribute_elements_on_arc NpFloat64 ?g (5 / 2) = Inr [a0, a1]"
    by blast
  have elem: "grating_element iterate ex2vec_fix ?g (5 / 2) a = Inl (ValueError sign_msg)" for a
    using no[of "5 / 2" a] by (simp add: grating_element_def)
  have g: "GratingArrayStructure_calculate_elempos iterate ex2vec_fix ?g
             = Inl (ValueError sign_msg)"
    by (simp add: GratingArrayStructure_calculate_elempos_def gradii angles elem)
  have lradii: "distribute_elements_on_radius ?l = Inr [5 / 2, 7 / 2]"
    by (simp add: distribute_elements_on_radius_def max_elements_on_radius_def arange_def
        upt_conv_Cons)
  have l: "LinearCCDArray_calculate_elempos iterate ?l = Inl (ElementPlacementError (10, 20))"
    using no[of "7 / 2" 0]
    by (simp add: LinearCCDArray_calculate_elempos_def lradii py_index_def except_ValueError_def
        sign_msg_recognised)
  show ?thesis
    using ginit g linit l by simp
qed


subsection \<open>Orientation of the elements\<close>

lemma cross_orthogonal: "dot (cross a b) a = 0" "dot (cross a b) b = 0"
proof -
  obtain a1 a2 a3 where a: "a = (a1, a2, a3)" by (metis prod_cases3)
  obtain b1 b2 b3 where b: "b = (b1, b2, b3)" by (metis prod_cases3)
  show "dot (cross a b) a = 0" by (simp add: a b algebra_simps)
  show "dot (cross a b) b = 0" by (simp add: a b algebra_simps)
qed

lemma triple_cross: "dot a (cross b (cross a b)) = dot (cross a b) (cross a b)"
proof -
  obtain a1 a2 a3 where a: "a = (a1, a2, a3)" by (metis prod_cases3)
  obtain b1 b2 b3 where b: "b = (b1, b2, b3)" by (metis prod_cases3)
  show ?thesis by (simp add: a b algebra_simps)
qed

lemma cross_smul_right: "cross b (smul k c) = smul k (cross b c)"
proof -
  obtain b1 b2 b3 where b: "b = (b1, b2, b3)" by (metis prod_cases3)
  obtain c1 c2 c3 where c: "c = (c1, c2, c3)" by (metis prod_cases3)
  show ?thesis by (simp add: b c algebra_simps)
qed

lemma dot_vsub_right: "dot a (vsub b c) = dot a b - dot a c"
proof -
  obtain a1 a2 a3 where a: "a = (a1, a2, a3)" by (metis prod_cases3)
  obtain b1 b2 b3 where b: "b = (b1, b2, b3)" by (metis prod_cases3)
  obtain c1 c2 c3 where c: "c = (c1, c2, c3)" by (metis prod_cases3)
  show ?thesis by (simp add: a b c algebra_simps)
qed

lemma linear_rot_mat_rows:
  assumes "linear_rot_mat n line = Inr (row0, row1, row2)"
  shows "row0 = n" and "row1 = vsub line (smul (dot n line) n)"
    and "row2 = smul (1 / norm3 (cross row0 row1)) (cross row0 row1)"
    and "cross row0 row1 \<noteq> (0, 0, 0)"
proof -
  have *: "row0 = n \<and> row1 = vsub line (smul (dot n line) n)
      \<and> norm3 (cross row0 row1) \<noteq> 0
      \<and> row2 = smul (1 / norm3 (cross row0 row1)) (cross row0 row1)"
    using assms
    by (auto simp: linear_rot_mat_def Let_def normalized_vector_def bind_e_def
        split: if_splits simp del: smul.simps cross.simps vsub.simps)
  then show "row0 = n" "row1 = vsub line (smul (dot n line) n)"
    "row2 = smul (1 / norm3 (cross row0 row1)) (cross row0 row1)"
    by simp_all
  from * show "cross row0 row1 \<noteq> (0, 0, 0)"
    using norm3_zero_iff[of "cross row0 row1"] by blast
qed

text \<open>
  Claim C5, as amended. The flag \<^verbatim>\<open>tangent_to_torus\<close> is true for the linear array and
  false for the grating array. The grating placer therefore hands the position of the
  element, not the normal of the torus, to \<^verbatim>\<open>ex2vec_fix\<close> as the direction of the local
  x axis, together with the global y axis. The linear placer takes the normal of the
  torus as the first row of its rotation block; the second row points along the line of
  centres minus its projection onto the normal, and the third is the normalised cross
  product of the first two: it has length one, is orthogonal to both, and the three rows
  are right-handed. The first two rows are orthogonal when the normal has length one.
  The length of the second row is left open.
\<close>

theorem placer_orientation_modes:
  "tangent_to_torus LinearCCDArray \<and> \<not> tangent_to_torus GratingArrayStructure
   \<and> grating_element iterate ex2vec_fix p r a =
        bind_e (xyz_from_radiusangle iterate (rowland p) r a (x_range p)) (\<lambda>element_pos.
        bind_e (ex2vec_fix element_pos (0, 1, 0)) (\<lambda>rot_mat.
          Inr (compose element_pos rot_mat)))
   \<and> linear_facet iterate q line r' =
        bind_e (xyz_from_radiusangle iterate (rowland q) r' (phi q) (x_range q)) (\<lambda>facet_pos.
        bind_e (normal1 (rowland q) facet_pos None) (\<lambda>facet_normal.
        bind_e (linear_rot_mat facet_normal line) (\<lambda>rot_mat.
          Inr (compose facet_pos rot_mat))))
   \<and> (linear_rot_mat n line = Inr (row0, row1, row2) \<longrightarrow>
        row0 = n
        \<and> (\<exists>k. 0 < k \<and> row1 = smul k (vsub line (smul (dot n line) n)))
        \<and> row2 = smul (1 / norm3 (cross row0 row1)) (cross row0 row1)
        \<and> norm3 row2 = 1 \<and> dot row2 row0 = 0 \<and> dot row2 row1 = 0
        \<and> 0 < det3 (row0, row1, row2)
        \<and> (norm3 n = 1 \<longrightarrow> dot row0 row1 = 0))"
proof -
  have g: "grating_element iterate ex2vec_fix p r a =
        bind_e (xyz_from_radiusangle iterate (rowland p) r a (x_range p)) (\<lambda>element_pos.
        bind_e (ex2vec_fix element_pos (0, 1, 0)) (\<lambda>rot_mat.
          Inr (compose element_pos rot_mat)))"
    by (simp add: grating_element_def)
  have l: "linear_facet iterate q line r' =
        bind_e (xyz_from_radiusangle iterate (rowland q) r' (phi q) (x_range q)) (\<lambda>facet_pos.
        bind_e (normal1 (rowland q) facet_pos None) (\<lambda>facet_normal.
        bind_e (linear_rot_mat facet_normal line) (\<lambda>rot_mat.
          Inr (compose facet_pos rot_mat))))"
    by (simp add: linear_facet_def)
  have rows: "row0 = n
        \<and> (\<exists>k. 0 < k \<and> row1 = smul k (vsub line (smul (dot n line) n)))
        \<and> row2 = smul (1 / norm3 (cross row0 row1)) (cross row0 row1)
        \<and> norm3 row2 = 1 \<and> dot row2 row0 = 0 \<and> dot row2 row1 = 0
        \<and> 0 < det3 (row0, row1, row2)
        \<and> (norm3 n = 1 \<longrightarrow> dot row0 row1 = 0)"
    if h: "linear_rot_mat n line = Inr (row0, row1, row2)"
  proof -
    define c where "c = cross row0 row1"
    note r = linear_rot_mat_rows[OF h]
    have k: "\<exists>k. 0 < k \<and> row1 = smul k (vsub line (smul (dot n line) n))"
    proof (intro exI[of _ 1] conjI)
      show "(0::real) < 1" by simp
      show "row1 = smul 1 (vsub line (smul (dot n line) n))"
        unfolding r(2) by (cases "vsub line (smul (dot n line) n)") simp
    qed
    have c0: "c \<noteq> (0, 0, 0)" using r(4) by (simp add: c_def)
    have cn: "0 < norm3 c"
      using c0 norm3_nonneg[of c] norm3_zero_iff[of c] by linarith
    have r2: "row2 = smul (1 / norm3 c) c" using r(3) by (simp add: c_def)
    have u: "norm3 row2 = 1"
      unfolding r2 by (rule norm3_unit[OF c0])
    have o0: "dot row2 row0 = 0" and o1: "dot row2 row1 = 0"
      unfolding r2 c_def by (simp_all only: dot_smul_left cross_orthogonal mult_zero_right)
    have "det3 (row0, row1, row2) = dot row0 (cross row1 (smul (1 / norm3 c) c))"
      by (simp only: det3.simps r2)
    also have "\<dots> = 1 / norm3 c * dot row0 (cross row1 c)"
      by (simp only: cross_smul_right dot_smul_right)
    also have "\<dots> = 1 / norm3 c * dot c c"
      unfolding c_def by (simp only: triple_cross)
    also have "\<dots> = norm3 c"
      using cn by (simp add: dot_self_norm3 power2_eq_square)
    finally have d: "0 < det3 (row0, row1, row2)" using cn by simp
    have t: "dot row0 row1 = 0" if "norm3 n = 1"
    proof -
      have nn: "dot n n = 1" using that by (simp add: dot_self_norm3)
      have "dot row0 row1 = dot n line - dot n line * dot n n"
        unfolding r(1) r(2) by (simp only: dot_vsub_right dot_smul_right)
      then show ?thesis using nn by simp
    qed
    show ?thesis
      using r(1,3) k u o0 o1 d t by blast
  qed
  show ?thesis
    using g l rows by simp
qed


text \<open>The rotation block for the normal \<open>(3/5, 4/5, 0)\<close> and the line \<open>(0, 1, 0)\<close>.\<close>

theorem placer_orientation_modes_witness:
  "linear_rot_mat (3 / 5, 4 / 5, 0) (0, 1, 0)
     = Inr ((3 / 5, 4 / 5, 0), (- 12 / 25, 9 / 25, 0), (0, 0, 1))
   \<and> norm3 (3 / 5, 4 / 5, 0) = 1
   \<and> norm3 (0, 0, 1) = 1
   \<and> dot (0, 0, 1) (3 / 5, 4 / 5, 0) = 0
   \<and> dot (0, 0, 1) (- 12 / 25, 9 / 25, 0) = 0
   \<and> 0 < det3 ((3 / 5, 4 / 5, 0), (- 12 / 25, 9 / 25, 0), (0, 0, 1))
   \<and> dot (3 / 5, 4 / 5, 0) (- 12 / 25, 9 / 25, 0) = 0"
proof -
  have s: "sqrt (9 / 25) = 3 / 5"
    by (rule real_sqrt_unique) (simp_all add: power2_eq_square)
  have n: "norm3 (3 / 5, 4 / 5, 0) = 1"
    by (simp add: norm3_def)
  have c: "norm3 (0, 0, 3 / 5) = 3 / 5"
    by (simp add: norm3_def s)
  have m: "linear_rot_mat (3 / 5, 4 / 5, 0) (0, 1, 0)
     = Inr ((3 / 5, 4 / 5, 0), (- 12 / 25, 9 / 25, 0), (0, 0, 1))"
    by (simp add: linear_rot_mat_def normalized_vector_def c)
  note th = placer_orientation_modes[where n = "(3 / 5, 4 / 5, 0)" and line = "(0, 1, 0)"
      and ?row0.0 = "(3 / 5, 4 / 5, 0)" and ?row1.0 = "(- 12 / 25, 9 / 25, 0)"
      and ?row2.0 = "(0, 0, 1)"]
  from th m n have
    "norm3 (0, 0, 1) = 1 \<and> dot (0, 0, 1) (3 / 5, 4 / 5, 0) = 0
     \<and> dot (0, 0, 1) (- 12 / 25, 9 / 25, 0) = 0
     \<and> 0 < det3 ((3 / 5, 4 / 5, 0), (- 12 / 25, 9 / 25, 0), (0, 0, 1))
     \<and> dot (3 / 5, 4 / 5, 0) (- 12 / 25, 9 / 25, 0) = 0"
    by blast
  with m n show ?thesis by blast
qed

text \<open>
  Claim C5 as stated fails for both placers. For the grating array: on the torus with
  \<open>R = r = 5\<close> the element at radius \<open>4\<close> and angle \<open>0\<close> sits at \<open>(8, 4, 0)\<close>, and that
  position is the vector handed on as the local x axis (the stand-in for
  \<^verbatim>\<open>ex2vec_fix\<close> returns its arguments), whereas the outward normal there is
  \<open>(3/5, 4/5, 0)\<close>. For the linear array: on the same torus, with \<open>d_element = 24/5\<close>,
  \<open>radius = [-12/5, 36/5]\<close>, \<open>phi = 0\<close> and \<open>x_range = [6, 11]\<close>, the two facets sit at
  \<open>(10, 0, 0)\<close> and \<open>(32/5, 24/5, 0)\<close> (the root finder returns the root of each slice),
  the line of centres is \<open>(-3/5, 4/5, 0)\<close>, and the second rows of the two rotation
  blocks, \<open>(0, 4/5, 0)\<close> and \<open>(-96/125, 28/125, 0)\<close>, have length \<open>4/5\<close>: line 468 does not
  normalise them, so the frames are not orthonormal.
\<close>

theorem grating_focused_ray_counterexample:
  "\<not> tangent_to_torus GratingArrayStructure
   \<and> grating_element (\<lambda>f a b. Inr (8, True)) (\<lambda>e1 efix. Inr (e1, efix, (0, 0, 0)))
      \<lparr>rowland = \<lparr>torus_R = 5, torus_r = 5, pos4d = identity_pose\<rparr>, d_element = 1,
       x_range = (7, 9), radius = (3, 5), phi = (0, 1)\<rparr> 4 0
     = Inr (compose (8, 4, 0) ((8, 4, 0), (0, 1, 0), (0, 0, 0)))
   \<and> normal1 \<lparr>torus_R = 5, torus_r = 5, pos4d = identity_pose\<rparr> (8, 4, 0) None
     = Inr (3 / 5, 4 / 5, 0)
   \<and> LinearCCDArray_init \<lparr>torus_R = 5, torus_r = 5, pos4d = identity_pose\<rparr> (24 / 5)
        (6, 11) (- 12 / 5, 36 / 5) 0
     = Inr \<lparr>rowland = \<lparr>torus_R = 5, torus_r = 5, pos4d = identity_pose\<rparr>,
            d_element = 24 / 5, x_range = (6, 11), radius = (- 12 / 5, 36 / 5), phi = 0\<rparr>
   \<and> LinearCCDArray_calculate_elempos
        (\<lambda>f a b. if f 10 = Inr 0 then Inr (10, True) else Inr (32 / 5, True))
        \<lparr>rowland = \<lparr>torus_R = 5, torus_r = 5, pos4d = identity_pose\<rparr>,
         d_element = 24 / 5, x_range = (6, 11), radius = (- 12 / 5, 36 / 5), phi = 0\<rparr>
     = Inr [compose (10, 0, 0) ((1, 0, 0), (0, 4 / 5, 0), (0, 0, 1)),
            compose (32 / 5, 24 / 5, 0)
              ((7 / 25, 24 / 25, 0), (- 96 / 125, 28 / 125, 0), (0, 0, 1))]
   \<and> norm3 (0, 4 / 5, 0) = 4 / 5
   \<and> norm3 (- 96 / 125, 28 / 125, 0) = 4 / 5
   \<and> \<not> orthonormal ((1, 0, 0), (0, 4 / 5, 0), (0, 0, 1))
   \<and> \<not> orthonormal ((7 / 25, 24 / 25, 0), (- 96 / 125, 28 / 125, 0), (0, 0, 1))"
proof -
  let ?t = "\<lparr>torus_R = 5, torus_r = 5, pos4d = identity_pose\<rparr>"
  let ?it = "\<lambda>(f :: real \<Rightarrow> error + real) (a::real) (b::real).
               if f 10 = Inr 0 then Inr (10, True) else (Inr (32 / 5, True) :: error + real \<times> bool)"
  let ?l = "\<lparr>rowland = ?t, d_element = 24 / 5, x_range = (6, 11),
             radius = (- (12 / 5), 36 / 5), phi = (0::real)\<rparr>"
  have x: "xyz_from_radiusangle (\<lambda>f a b. Inr (8, True)) ?t 4 0 (7, 9) = Inr (8, 4, 0)"
    by (simp add: xyz_from_radiusangle_def solve_quartic_def brentq_def quartic_slice_def
        quartic_def free_index_def coord_or_zero_def identity_pose_simps)
  have g: "grating_element (\<lambda>f a b. Inr (8, True)) (\<lambda>e1 efix. Inr (e1, efix, (0, 0, 0)))
      \<lparr>rowland = ?t, d_element = 1, x_range = (7, 9), radius = (3, 5), phi = (0, 1)\<rparr> 4 0
     = Inr (compose (8, 4, 0) ((8, 4, 0), (0, 1, 0), (0, 0, 0)))"
    by (simp add: grating_element_def x)
  have s: "sqrt 2560000 = 1600"
    by (rule real_sqrt_unique) simp_all
  have nrm: "norm3 (960, 1280, 0) = 1600"
    by (simp add: norm3_def s)
  have n: "normal1 ?t (8, 4, 0) None = Inr (3 / 5, 4 / 5, 0)"
    by (simp add: normal1_def normal_def identity_pose_simps quartic_def np_allclose_zero_def
        np_divide_def row_over_norm_def nrm py_index_def)
  have init: "LinearCCDArray_init ?t (24 / 5) (6, 11) (- (12 / 5), 36 / 5) 0 = Inr ?l"
    by (simp add: LinearCCDArray_init_def placer_init_def Let_def)
  have radii: "distribute_elements_on_radius ?l = Inr [0, 24 / 5]"
    by (simp add: distribute_elements_on_radius_def max_elements_on_radius_def arange_def
        upt_conv_Cons)
  have x0: "xyz_from_radiusangle ?it ?t 0 0 (6, 11) = Inr (10, 0, 0)"
    by (simp add: xyz_from_radiusangle_def solve_quartic_def brentq_def quartic_slice_def
        quartic_def free_index_def coord_or_zero_def identity_pose_simps)
  have x1: "xyz_from_radiusangle ?it ?t (24 / 5) 0 (6, 11) = Inr (32 / 5, 24 / 5, 0)"
    by (simp add: xyz_from_radiusangle_def solve_quartic_def brentq_def quartic_slice_def
        quartic_def free_index_def coord_or_zero_def identity_pose_simps power2_eq_square)
  have s36: "sqrt 36 = 6"
    by (rule real_sqrt_unique) simp_all
  have s1625: "sqrt (16 / 25) = 4 / 5"
    by (rule real_sqrt_unique) (simp_all add: power2_eq_square)
  have line: "normalized_vector (- (18 / 5), 24 / 5, 0) = Inr (- (3 / 5), 4 / 5, 0)"
    by (simp add: normalized_vector_def norm3_def power2_eq_square s36)
  have n0: "normal1 ?t (10, 0, 0) None = Inr (1, 0, 0)"
    by (simp add: normal1_def normal_def identity_pose_simps quartic_def np_allclose_zero_def
        np_divide_def row_over_norm_def norm3_def py_index_def)
  have s1280: "sqrt 1638400 = 1280"
    by (rule real_sqrt_unique) simp_all
  have g1: "gradient_local ?t (32 / 5, 24 / 5, 0) = (1792 / 5, 6144 / 5, 0)"
    by (simp add: power2_eq_square)
  have ng1: "norm3 (1792 / 5, 6144 / 5, 0) = 1280"
    by (simp add: norm3_def power2_eq_square s1280)
  have q1: "quartic_local ?t (32 / 5, 24 / 5, 0) = 0"
    by (simp add: power2_eq_square)
  have n1: "normal1 ?t (32 / 5, 24 / 5, 0) None = Inr (7 / 25, 24 / 25, 0)"
    by (simp add: normal1_def normal_def identity_pose_simps quartic_def np_allclose_zero_def
        np_divide_def row_over_norm_def py_index_def g1 ng1 q1
        del: gradient_local.simps quartic_local.simps)
  have r1a: "norm3 (0, 4 / 5, 0) = 4 / 5"
    by (simp add: norm3_def power2_eq_square s1625)
  have r1b: "norm3 (- (96 / 125), 28 / 125, 0) = 4 / 5"
    by (simp add: norm3_def power2_eq_square s1625)
  have c: "norm3 (0, 0, 4 / 5) = 4 / 5"
    by (simp add: norm3_def power2_eq_square s1625)
  have m0: "linear_rot_mat (1, 0, 0) (- (3 / 5), 4 / 5, 0)
              = Inr ((1, 0, 0), (0, 4 / 5, 0), (0, 0, 1))"
    by (simp add: linear_rot_mat_def normalized_vector_def c)
  have m1: "linear_rot_mat (7 / 25, 24 / 25, 0) (- (3 / 5), 4 / 5, 0)
              = Inr ((7 / 25, 24 / 25, 0), (- (96 / 125), 28 / 125, 0), (0, 0, 1))"
    by (simp add: linear_rot_mat_def normalized_vector_def c)
  have f0: "linear_facet ?it ?l (- (3 / 5), 4 / 5, 0) 0
              = Inr (compose (10, 0, 0) ((1, 0, 0), (0, 4 / 5, 0), (0, 0, 1)))"
    using x0 by (simp add: linear_facet_def n0 m0)
  have f1: "linear_facet ?it ?l (- (3 / 5), 4 / 5, 0) (24 / 5)
              = Inr (compose (32 / 5, 24 / 5, 0)
                  ((7 / 25, 24 / 25, 0), (- (96 / 125), 28 / 125, 0), (0, 0, 1)))"
    using x1 by (simp add: linear_facet_def n1 m1)
  have run: "LinearCCDArray_calculate_elempos ?it ?l
     = Inr [compose (10, 0, 0) ((1, 0, 0), (0, 4 / 5, 0), (0, 0, 1)),
            compose (32 / 5, 24 / 5, 0)
              ((7 / 25, 24 / 25, 0), (- (96 / 125), 28 / 125, 0), (0, 0, 1))]"
    by (simp add: LinearCCDArray_calculate_elempos_def radii py_index_def
        except_ValueError_def x0 x1 line f0 f1)
  have no0: "\<not> orthonormal ((1, 0, 0), (0, 4 / 5, 0), (0, 0, 1))"
    by (simp add: orthonormal_def)
  have no1: "\<not> orthonormal ((7 / 25, 24 / 25, 0), (- (96 / 125), 28 / 125, 0), (0, 0, 1))"
    by (simp add: orthonormal_def)
  show ?thesis
    using g n init run r1a r1b no0 no1 by simp
qed

end
